theory Spec2Isabelle
  imports Main "HOL-Library.Word" "HOL-Library.AList"
begin

section \<open>Data model of blockchain/chain.go\<close>

text \<open>
  A \<^verbatim>\<open>chainhash.Hash\<close> is an array of 32 bytes, compared for equality only.
\<close>

type_synonym hash = "256 word"

text \<open>
  The errors the functions of chain.go return, and the panics they raise.
  \<^verbatim>\<open>fmt.Errorf\<close> values carry their message, \<^verbatim>\<open>RuleError\<close> its error code, a panic
  (\<^verbatim>\<open>panicf\<close>, or the dereference of a nil pointer) a short description of its site.
  \<^verbatim>\<open>OtherError\<close> stands for the errors of the database and of the other collaborators.
\<close>

datatype errorCode =
    ErrForceReorgWrongChain
  | ErrForceReorgMissingChild
  | ErrKnownInvalidBlock
  | ErrOtherRule nat

datatype error =
    Errorf string
  | VoteVersionError "32 word"
  | HashError hash
  | RuleError errorCode
  | ErrNotInMainChain
  | OtherError nat
  | Panic string

fun isRuleError :: "error \<Rightarrow> bool" where
  "isRuleError (RuleError c) = True"
| "isRuleError e = False"

fun isPanic :: "error \<Rightarrow> bool" where
  "isPanic (Panic m) = True"
| "isPanic e = False"

text \<open>
  A \<^verbatim>\<open>*blockNode\<close>. The fields of a node that chain.go reads and never writes (the
  parent pointer, the hash, the height, the work sum and the header fields) are set
  once when the node is created, so a pointer to a node is modelled by the value of
  these fields, the parent pointer being the parent node itself: \<^verbatim>\<open>n.parent\<close> is
  \<open>parent n\<close>, nil is \<open>None\<close>, and the comparison of two pointers is the equality of
  two nodes (the index holds one node per hash). The fields that chain.go writes
  (status, stakeNode, newTickets, ticketsVoted, ticketsRevoked) live in a store keyed
  by node; see \<open>nodeData\<close> below.
\<close>

datatype blockNode =
  BlockNode (parent: "blockNode option") (hash: hash) (height: int) (workSum: int)
    (bits: "32 word") (sbits: int)

lemma parent_size: "parent n = Some p \<Longrightarrow> size p < size n"
  by (cases n) simp

subsection \<open>The chain view\<close>

text \<open>
  Modelled from the spec: the type \<^verbatim>\<open>chainView\<close> and its methods \<^verbatim>\<open>Tip\<close>,
  \<^verbatim>\<open>Genesis\<close>, \<^verbatim>\<open>NodeByHeight\<close>, \<^verbatim>\<open>Contains\<close>, \<^verbatim>\<open>Next\<close> and \<^verbatim>\<open>FindFork\<close>
  (chainview.go is not among the sources). The spec: a dense array indexed by height
  \<open>0..tip.height\<close>, each slot holding the index entry at that height on the main
  branch; \<open>node_by_height(h)\<close> is the entry or nil; \<open>contains(node)\<close> is true iff
  \<open>view[node.height] == node\<close>; \<open>next(node)\<close> is the successor on the view, or nil
  past the tip; \<open>find_fork(node)\<close> walks node upward until \<open>contains(ancestor)\<close>.
\<close>

type_synonym chainView = "blockNode list"

definition Tip :: "chainView \<Rightarrow> blockNode option" where
  "Tip c = (if c = [] then None else Some (last c))"

definition NodeByHeight :: "chainView \<Rightarrow> int \<Rightarrow> blockNode option" where
  "NodeByHeight c h = (if 0 \<le> h \<and> h < int (length c) then Some (c ! nat h) else None)"

definition Genesis :: "chainView \<Rightarrow> blockNode option" where
  "Genesis c = NodeByHeight c 0"

definition Contains :: "chainView \<Rightarrow> blockNode \<Rightarrow> bool" where
  "Contains c n = (NodeByHeight c (height n) = Some n)"

definition Next :: "chainView \<Rightarrow> blockNode option \<Rightarrow> blockNode option" where
  "Next c node =
     (case node of
        None \<Rightarrow> None
      | Some n \<Rightarrow> if Contains c n then NodeByHeight c (height n + 1) else None)"

function FindFork :: "chainView \<Rightarrow> blockNode \<Rightarrow> blockNode option" where
  "FindFork c n =
     (if Contains c n then Some n
      else case parent n of None \<Rightarrow> None | Some p \<Rightarrow> FindFork c p)"
  by pat_completeness auto
termination
  by (relation "measure (\<lambda>(c, n). size n)") (auto simp: parent_size)

declare FindFork.simps [simp del]

text \<open>
  The invariant of the view, from the same paragraph of the spec: the slot of height
  \<open>h\<close> holds a node of height \<open>h\<close> whose parent is the node of the slot below, the
  first slot holds the genesis node (no parent), and the view of an initialised chain
  is not empty.
\<close>

fun viewFrom :: "int \<Rightarrow> blockNode option \<Rightarrow> blockNode list \<Rightarrow> bool" where
  "viewFrom h p [] = True"
| "viewFrom h p (n # ns) = (height n = h \<and> parent n = p \<and> viewFrom (h + 1) (Some n) ns)"

definition chainView_ok :: "chainView \<Rightarrow> bool" where
  "chainView_ok c = (c \<noteq> [] \<and> viewFrom 0 None c)"

subsection \<open>Blocks, stake nodes, best state\<close>

text \<open>
  A \<^verbatim>\<open>*dcrutil.Block\<close>, with the parts of it that chain.go reads: \<^verbatim>\<open>Hash()\<close>,
  \<^verbatim>\<open>Height()\<close>, the header fields \<^verbatim>\<open>PrevBlock\<close>, \<^verbatim>\<open>VoteBits\<close> and \<^verbatim>\<open>Size\<close>, the
  regular transactions and the stake transactions. Of a transaction only its list of
  inputs is read (an input is left opaque).
\<close>

record msgTx =
  TxIn :: "nat list"

record blockHeader =
  PrevBlock :: hash
  VoteBits :: "16 word"
  Size :: "32 word"

record block =
  blockHash :: hash
  blockHeight :: int
  Header :: blockHeader
  Transactions :: "msgTx list"
  STransactions :: "msgTx list"

datatype txType = TxTypeRegular | TxTypeSStx | TxTypeSSGen | TxTypeSSRtx

text \<open>A \<^verbatim>\<open>*stake.Node\<close>, by the values its methods return.\<close>

record stakeNode =
  PoolSize :: int
  Winners :: "hash list"
  MissedTickets :: "hash list"
  FinalState :: "48 word"
  SpentByBlock :: "hash list"
  MissedByBlock :: "hash list"
  NewTickets :: "hash list"
  UndoData :: nat

record BestState =
  Hash :: hash
  PrevHash :: hash
  Height :: int
  Bits :: "32 word"
  NextPoolSize :: "32 word"
  NextStakeDiff :: int
  BlockSize :: "64 word"
  NumTxns :: "64 word"
  TotalTxns :: "64 word"
  MedianTime :: int
  TotalSubsidy :: int
  NextWinningTickets :: "hash list"
  MissedTicketsOf :: "hash list"
  NextFinalState :: "48 word"

text \<open>The status bits of a node and the fields of a node that chain.go writes.\<close>

datatype statusFlag = statusDataStored | statusValid | statusValidateFailed | statusInvalidAncestor

type_synonym blockStatus = "statusFlag set"

record nodeData =
  status :: blockStatus
  stakeNodeOf :: "stakeNode option"
  newTickets :: "hash list option"
  ticketsVoted :: "hash list option"
  ticketsRevoked :: "hash list option"

text \<open>
  Modelled from the spec: the status predicates of blockindex.go, which is not among
  the sources. The spec: status is a bit-set over HaveData, ValidateFailed,
  InvalidAncestor and Valid; a node is known invalid when ValidateFailed or
  InvalidAncestor is set.
\<close>

definition HaveData :: "blockStatus \<Rightarrow> bool" where
  "HaveData s = (statusDataStored \<in> s)"

definition KnownValid :: "blockStatus \<Rightarrow> bool" where
  "KnownValid s = (statusValid \<in> s)"

definition KnownInvalid :: "blockStatus \<Rightarrow> bool" where
  "KnownInvalid s = (statusValidateFailed \<in> s \<or> statusInvalidAncestor \<in> s)"

subsection \<open>The chain\<close>

record orphanBlock =
  orphanBlk :: block
  expiration :: int

record ConsensusDeployment =
  VoteId :: string
  StartTime :: "64 word"
  ExpireTime :: "64 word"

record chainParams =
  Deployments :: "32 word \<rightharpoonup> ConsensusDeployment list"
  StakeEnabledHeight :: int
  LatestCheckpointHeight :: int

record ReorganizationNtfnsData =
  OldHash :: hash
  OldHeight :: int
  NewHash :: hash
  NewHeight :: int

record TicketNotificationsData =
  TicketHash :: hash
  TicketHeight :: int
  StakeDifficulty :: int
  TicketsSpent :: "hash list"
  TicketsMissed :: "hash list"
  TicketsNew :: "hash list"

datatype notification =
    NTBlockConnected block block
  | NTBlockDisconnected block block
  | NTReorganization ReorganizationNtfnsData
  | NTChainReorgStarted
  | NTChainReorgDone
  | NTSpentAndMissedTickets TicketNotificationsData
  | NTNewTickets TicketNotificationsData

text \<open>
  The fields of \<^verbatim>\<open>BlockChain\<close> that the functions below read or write. The block index
  \<^verbatim>\<open>b.index\<close> is given by its three parts (the map from hash to node, the nodes of
  each height, the set of modified nodes as a list without repetition) and by the store
  \<open>nodeData\<close> of the mutable fields of the nodes. The database \<open>db\<close> is left abstract. \<open>notifications\<close> is the
  list of the notifications delivered so far to the callback, the latest last.
  \<open>indexManager\<close> tells whether an index manager is configured.
\<close>

record 'db BlockChain =
  chainParams :: chainParams
  db :: 'db
  notifications :: "notification list"
  indexManager :: bool
  index :: "hash \<rightharpoonup> blockNode"
  chainTips :: "int \<Rightarrow> blockNode list"
  modified :: "blockNode list"
  nodeData :: "blockNode \<Rightarrow> nodeData"
  bestChain :: chainView
  orphans :: "(hash \<times> orphanBlock) list"
  prevOrphans :: "hash \<rightharpoonup> orphanBlock list"
  oldestOrphan :: "orphanBlock option"
  mainchainBlockCache :: "hash \<rightharpoonup> block"
  mainchainBlockCacheSize :: int
  stateSnapshot :: BestState

text \<open>
  Modelled from the spec: \<^verbatim>\<open>blockIndex.LookupNode\<close>, \<^verbatim>\<open>NodeStatus\<close> and
  \<^verbatim>\<open>SetStatusFlags\<close> of blockindex.go. The spec: \<open>lookup(hash)\<close> is a pure lookup;
  \<open>set_status_flags(node, flags)\<close> OR-merges flags into the status and marks the node
  dirty.
\<close>

definition LookupNode :: "'db BlockChain \<Rightarrow> hash \<Rightarrow> blockNode option" where
  "LookupNode b h = index b h"

definition NodeStatus :: "'db BlockChain \<Rightarrow> blockNode \<Rightarrow> blockStatus" where
  "NodeStatus b n = status (nodeData b n)"

definition SetStatusFlags :: "blockNode \<Rightarrow> statusFlag \<Rightarrow> 'db BlockChain \<Rightarrow> 'db BlockChain" where
  "SetStatusFlags n f b =
     b\<lparr>nodeData := (nodeData b)(n := (nodeData b n)\<lparr>status := insert f (status (nodeData b n))\<rparr>),
       modified := List.insert n (modified b)\<rparr>"

subsection \<open>The chains of the scenarios of the spec\<close>

text \<open>
  Scenario 1 of the spec is the chain G, B1, B2, B3; scenario 2 adds the side-chain
  block B2a on top of B1, with less work than B3; scenario 3 adds B3a on top of B2a.
  In these states every block has its data, the blocks of the main chain are valid,
  \<open>chainTips\<close> holds for each height the entries of that height, and the database
  is the unit value. \<open>chainOf d main side\<close> is the chain with the database \<open>d\<close>, the
  main chain \<open>main\<close> and the side-chain blocks \<open>side\<close>.
\<close>

definition nodeG :: blockNode where
  "nodeG = BlockNode None 1000 0 10 0 0"

definition nodeB1 :: blockNode where
  "nodeB1 = BlockNode (Some nodeG) 1001 1 20 0 0"

definition nodeB2 :: blockNode where
  "nodeB2 = BlockNode (Some nodeB1) 1002 2 30 0 0"

definition nodeB3 :: blockNode where
  "nodeB3 = BlockNode (Some nodeB2) 1003 3 40 0 0"

definition nodeB2a :: blockNode where
  "nodeB2a = BlockNode (Some nodeB1) 2002 2 29 0 0"

definition nodeB3a :: blockNode where
  "nodeB3a = BlockNode (Some nodeB2a) 2003 3 41 0 0"

lemmas scenario_nodes = nodeG_def nodeB1_def nodeB2_def nodeB3_def nodeB2a_def nodeB3a_def

definition noState :: BestState where
  "noState = \<lparr>Hash = 0, PrevHash = 0, Height = 0, Bits = 0, NextPoolSize = 0, NextStakeDiff = 0,
     BlockSize = 0, NumTxns = 0, TotalTxns = 0, MedianTime = 0, TotalSubsidy = 0,
     NextWinningTickets = [], MissedTicketsOf = [], NextFinalState = 0\<rparr>"

definition dataOf :: "blockStatus \<Rightarrow> nodeData" where
  "dataOf st = \<lparr>status = st, stakeNodeOf = None, newTickets = None, ticketsVoted = None,
     ticketsRevoked = None\<rparr>"

definition chainOf :: "'db \<Rightarrow> blockNode list \<Rightarrow> blockNode list \<Rightarrow> 'db BlockChain" where
  "chainOf d main side =
     \<lparr>chainParams = \<lparr>Deployments = Map.empty, StakeEnabledHeight = 0, LatestCheckpointHeight = 0\<rparr>,
      db = d,
      notifications = [],
      indexManager = False,
      index = map_of (map (\<lambda>n. (hash n, n)) (main @ side)),
      chainTips = (\<lambda>h. filter (\<lambda>n. height n = h) (main @ side)),
      modified = [],
      nodeData = (\<lambda>n. if n \<in> set main then dataOf {statusDataStored, statusValid}
                       else dataOf {statusDataStored}),
      bestChain = main,
      orphans = [],
      prevOrphans = Map.empty,
      oldestOrphan = None,
      mainchainBlockCache = Map.empty,
      mainchainBlockCacheSize = 12,
      stateSnapshot = noState\<rparr>"

definition scenario1 :: "unit BlockChain" where
  "scenario1 = chainOf () [nodeG, nodeB1, nodeB2, nodeB3] []"

definition scenario2 :: "unit BlockChain" where
  "scenario2 = chainOf () [nodeG, nodeB1, nodeB2, nodeB3] [nodeB2a]"

definition scenario3 :: "unit BlockChain" where
  "scenario3 = chainOf () [nodeG, nodeB1, nodeB2, nodeB3] [nodeB2a, nodeB3a]"


section \<open>HeightRange\<close>

text \<open>
  The loop of \<^verbatim>\<open>HeightRange\<close>: \<open>k\<close> iterations are left, \<open>iterNode\<close> is the node
  whose hash is written next, and \<open>acc\<close> holds the slots \<open>hashes[endHeight-i-1 ..]\<close>
  written so far. The slots are written from the last one down, so each hash goes in front
  of \<open>acc\<close>. Reading \<^verbatim>\<open>iterNode.hash\<close> of a nil node panics.
\<close>

fun heightRangeLoop :: "nat \<Rightarrow> blockNode option \<Rightarrow> hash list \<Rightarrow> error + hash list" where
  "heightRangeLoop 0 iterNode acc = Inr acc"
| "heightRangeLoop (Suc k) None acc = Inl (Panic ''nil iterNode'')"
| "heightRangeLoop (Suc k) (Some n) acc = heightRangeLoop k (parent n) (hash n # acc)"

text \<open>
  Heights are \<^verbatim>\<open>int64\<close> in the source. The view holds fewer than \<open>2^63\<close> nodes, so
  \<open>latestHeight + 1\<close> does not overflow, and the other operations of the function are
  comparisons and the difference of \<open>0 \<le> startHeight \<le> endHeight\<close>: the heights are
  modelled by \<open>int\<close>.
\<close>

definition HeightRange :: "'db BlockChain \<Rightarrow> int \<Rightarrow> int \<Rightarrow> error + hash list" where
  "HeightRange b startHeight endHeight =
     (if startHeight < 0 then Inl (Errorf ''start height of fetch range must not be less than zero'')
      else if endHeight < startHeight
        then Inl (Errorf ''end height of fetch range must not be less than the start height'')
      else if startHeight = endHeight then Inr []
      else case Tip (bestChain b) of
        None \<Rightarrow> Inl (Panic ''nil tip'')
      | Some tip \<Rightarrow>
          let latestHeight = height tip in
          if startHeight > latestHeight then Inr []
          else
            let endHeight' = (if endHeight > latestHeight + 1 then latestHeight + 1 else endHeight)
            in heightRangeLoop (nat (endHeight' - startHeight))
                 (NodeByHeight (bestChain b) (endHeight' - 1)) [])"

subsection \<open>The view and the parent pointers\<close>

lemma viewFrom_height: "viewFrom h p c \<Longrightarrow> i < length c \<Longrightarrow> height (c ! i) = h + int i"
proof (induction c arbitrary: h p i)
  case Nil then show ?case by simp
next
  case (Cons n ns)
  then show ?case by (cases i) auto
qed

lemma viewFrom_parent_Suc:
  "viewFrom h p c \<Longrightarrow> Suc i < length c \<Longrightarrow> parent (c ! Suc i) = Some (c ! i)"
proof (induction c arbitrary: h p i)
  case Nil then show ?case by simp
next
  case (Cons n ns)
  show ?case
  proof (cases i)
    case 0
    with Cons.prems show ?thesis by (cases ns) auto
  next
    case (Suc j)
    with Cons.prems Cons.IH [of "h + 1" "Some n" j] show ?thesis by simp
  qed
qed

lemma viewFrom_parent_0: "viewFrom h p c \<Longrightarrow> c \<noteq> [] \<Longrightarrow> parent (c ! 0) = p"
  by (cases c) auto

lemma view_parent_NodeByHeight:
  assumes "viewFrom 0 None c" "j < length c"
  shows "parent (c ! j) = NodeByHeight c (int j - 1)"
proof (cases j)
  case 0
  with assms show ?thesis by (simp add: NodeByHeight_def viewFrom_parent_0)
next
  case (Suc i)
  with assms viewFrom_parent_Suc [of 0 None c i] show ?thesis
    by (simp add: NodeByHeight_def)
qed

lemma Tip_height:
  assumes "chainView_ok c" "Tip c = Some t"
  shows "height t = int (length c) - 1"
proof -
  from assms have ne: "c \<noteq> []" and v: "viewFrom 0 None c" by (simp_all add: chainView_ok_def)
  from assms ne have "t = c ! (length c - 1)" by (simp add: Tip_def last_conv_nth)
  with viewFrom_height [OF v, of "length c - 1"] ne show ?thesis by (cases c) auto
qed

subsection \<open>The range of heights\<close>

lemma heightRangeLoop_view:
  assumes "viewFrom 0 None c"
  shows "k \<le> j \<Longrightarrow> j \<le> length c \<Longrightarrow>
    heightRangeLoop k (NodeByHeight c (int j - 1)) acc = Inr (map hash (take k (drop (j - k) c)) @ acc)"
proof (induction k arbitrary: j acc)
  case 0
  then show ?case by simp
next
  case (Suc k)
  then obtain j' where j: "j = Suc j'" by (cases j) auto
  with Suc.prems have j': "j' < length c" "k \<le> j'" by auto
  have nb: "NodeByHeight c (int j - 1) = Some (c ! j')"
    using j j' by (simp add: NodeByHeight_def)
  have par: "parent (c ! j') = NodeByHeight c (int j' - 1)"
    using assms j'(1) by (rule view_parent_NodeByHeight)
  have "take (Suc k) (drop (j' - k) c) = take k (drop (j' - k) c) @ [c ! j']"
    using j' by (simp add: take_Suc_conv_app_nth)
  with Suc.IH [of j' "hash (c ! j') # acc"] j' nb par j show ?case by simp
qed

lemma take_drop_upto:
  assumes "0 \<le> s" "s \<le> e" "e \<le> int (length c)"
  shows "take (nat (e - s)) (drop (nat s) c) = map (\<lambda>h. c ! nat h) [s .. e - 1]"
proof (rule nth_equalityI)
  show "length (take (nat (e - s)) (drop (nat s) c)) = length (map (\<lambda>h. c ! nat h) [s .. e - 1])"
    using assms by simp
next
  fix i assume "i < length (take (nat (e - s)) (drop (nat s) c))"
  with assms have i: "int i < e - s" by simp
  then have "[s .. e - 1] ! i = s + int i" by (simp add: nth_upto)
  with i assms show "take (nat (e - s)) (drop (nat s) c) ! i = map (\<lambda>h. c ! nat h) [s .. e - 1] ! i"
    by (simp add: nat_add_distrib)
qed

lemma HeightRange_inside:
  assumes ok: "chainView_ok (bestChain b)" and tip: "Tip (bestChain b) = Some tip"
    and s: "0 \<le> s" "s < e" "s \<le> height tip"
  shows "HeightRange b s e = Inr (map (\<lambda>h. hash (bestChain b ! nat h)) [s .. min e (height tip + 1) - 1])"
proof -
  let ?c = "bestChain b"
  let ?e = "min e (height tip + 1)"
  from ok have v: "viewFrom 0 None ?c" by (simp add: chainView_ok_def)
  have th: "height tip = int (length ?c) - 1" using ok tip by (rule Tip_height)
  have e: "s < ?e" "?e \<le> int (length ?c)" using s th by auto
  have "HeightRange b s e = heightRangeLoop (nat (?e - s)) (NodeByHeight ?c (?e - 1)) []"
    using s tip by (simp add: HeightRange_def Let_def min_def)
  also have "\<dots> = heightRangeLoop (nat (?e - s)) (NodeByHeight ?c (int (nat ?e) - 1)) []"
    using e s by simp
  also have "\<dots> = Inr (map hash (take (nat (?e - s)) (drop (nat ?e - nat (?e - s)) ?c)) @ [])"
    using e s by (intro heightRangeLoop_view [OF v]) auto
  also have "nat ?e - nat (?e - s) = nat s" using e s by auto
  also have "take (nat (?e - s)) (drop (nat s) ?c) = map (\<lambda>h. ?c ! nat h) [s .. ?e - 1]"
    using s e by (intro take_drop_upto) auto
  finally show ?thesis by (simp add: comp_def)
qed

text \<open>
  Claim C9. For all heights \<open>s\<close> and \<open>e\<close>, on a chain whose view is well formed:
  \<open>HeightRange s e\<close> returns an error exactly when \<open>s < 0\<close> or \<open>e < s\<close>; it returns
  the empty result when \<open>s = e\<close>, and also when \<open>s\<close> exceeds the height of the tip;
  otherwise it returns the hashes of the nodes of the view at the heights of the
  half-open range from \<open>s\<close> to \<open>min e (tip.height + 1)\<close>, in ascending order of height.
\<close>

theorem HeightRange_spec:
  assumes ok: "chainView_ok (bestChain b)"
  shows "((\<exists>err. HeightRange b s e = Inl err) \<longleftrightarrow> (s < 0 \<or> e < s))
       \<and> (s = e \<and> 0 \<le> s \<longrightarrow> HeightRange b s e = Inr [])
       \<and> (\<forall>tip. Tip (bestChain b) = Some tip \<and> 0 \<le> s \<and> s \<le> e \<and> height tip < s \<longrightarrow>
            HeightRange b s e = Inr [])
       \<and> (\<forall>tip. Tip (bestChain b) = Some tip \<and> 0 \<le> s \<and> s < e \<and> s \<le> height tip \<longrightarrow>
            HeightRange b s e =
              Inr (map (\<lambda>h. hash (bestChain b ! nat h)) [s .. min e (height tip + 1) - 1]))"
proof -
  from ok obtain tip where tip: "Tip (bestChain b) = Some tip"
    by (auto simp: chainView_ok_def Tip_def)
  have inside: "0 \<le> s \<Longrightarrow> s < e \<Longrightarrow> s \<le> height tip \<Longrightarrow>
      HeightRange b s e = Inr (map (\<lambda>h. hash (bestChain b ! nat h)) [s .. min e (height tip + 1) - 1])"
    by (rule HeightRange_inside [OF ok tip])
  have above: "0 \<le> s \<Longrightarrow> s \<le> e \<Longrightarrow> height tip < s \<Longrightarrow> HeightRange b s e = Inr []"
    using tip by (simp add: HeightRange_def)
  have same: "s = e \<Longrightarrow> 0 \<le> s \<Longrightarrow> HeightRange b s e = Inr []"
    by (simp add: HeightRange_def)
  have err: "s < 0 \<or> e < s \<Longrightarrow> \<exists>err. HeightRange b s e = Inl err"
    by (auto simp: HeightRange_def)
  have noerr: "\<exists>hs. HeightRange b s e = Inr hs" if a: "\<not> (s < 0 \<or> e < s)"
  proof (cases "s = e")
    case True with a same show ?thesis by simp
  next
    case False
    show ?thesis
    proof (cases "s \<le> height tip")
      case True with a \<open>s \<noteq> e\<close> inside show ?thesis by simp
    next
      case False with a above show ?thesis by simp
    qed
  qed
  have iff: "(\<exists>err. HeightRange b s e = Inl err) \<longleftrightarrow> (s < 0 \<or> e < s)"
    using err noerr by (metis Inl_Inr_False)
  show ?thesis using iff same above inside tip by simp
qed

lemma scenario_view_ok: "chainView_ok [nodeG, nodeB1, nodeB2, nodeB3]"
  by (simp add: chainView_ok_def scenario_nodes)

lemma scenario2_bestChain: "bestChain scenario2 = [nodeG, nodeB1, nodeB2, nodeB3]"
  by (simp add: scenario2_def chainOf_def)

theorem HeightRange_spec_witness:
  "chainView_ok (bestChain scenario2)
   \<and> HeightRange scenario2 1 7 = Inr [hash nodeB1, hash nodeB2, hash nodeB3]
   \<and> HeightRange scenario2 2 2 = Inr []
   \<and> HeightRange scenario2 5 7 = Inr []
   \<and> (\<exists>err. HeightRange scenario2 3 2 = Inl err)"
proof -
  have ok: "chainView_ok (bestChain scenario2)"
    by (simp add: scenario2_bestChain scenario_view_ok)
  have tip: "Tip (bestChain scenario2) = Some nodeB3" "height nodeB3 = 3"
    by (simp_all add: scenario2_bestChain Tip_def nodeB3_def)
  have up: "[1 .. min 7 (3 + 1) - 1] = [1, 2, 3::int]"
    by (simp add: upto_rec1)
  from HeightRange_spec [OF ok, of 1 7] tip up
  have a: "HeightRange scenario2 1 7 = Inr [hash nodeB1, hash nodeB2, hash nodeB3]"
    by (simp add: scenario2_bestChain)
  from HeightRange_spec [OF ok, of 2 2] have b: "HeightRange scenario2 2 2 = Inr []"
    by simp
  from HeightRange_spec [OF ok, of 5 7] tip have c: "HeightRange scenario2 5 7 = Inr []"
    by simp
  from HeightRange_spec [OF ok, of 3 2] have d: "\<exists>err. HeightRange scenario2 3 2 = Inl err"
    by simp
  from ok a b c d show ?thesis by simp
qed

section \<open>GetVoteInfo\<close>

text \<open>
  \<^verbatim>\<open>NextThresholdState\<close> belongs to thresholdstate.go, which is not among the
  sources: \<^verbatim>\<open>GetVoteInfo\<close> takes it as a parameter, a function of the hash, the version
  and the deployment id that returns an error or a threshold state of some type \<open>'s\<close>.
  \<open>found\<close> and \<open>ok\<close> are the two results of the map lookup
  \<^verbatim>\<open>b.chainParams.Deployments[version]\<close>; the source tests \<open>ok\<close> twice.
\<close>

record 's VoteInfo =
  Agendas :: "ConsensusDeployment list"
  AgendaStatus :: "'s list"

fun getVoteInfoLoop ::
  "(ConsensusDeployment \<Rightarrow> error + 's) \<Rightarrow> ConsensusDeployment list \<Rightarrow> 's VoteInfo \<Rightarrow> error + 's VoteInfo"
where
  "getVoteInfoLoop nts [] vi = Inr vi"
| "getVoteInfoLoop nts (deployment # rest) vi =
     (let vi1 = vi\<lparr>Agendas := Agendas vi @ [deployment]\<rparr> in
      case nts deployment of
        Inl err \<Rightarrow> Inl err
      | Inr st \<Rightarrow> getVoteInfoLoop nts rest (vi1\<lparr>AgendaStatus := AgendaStatus vi1 @ [st]\<rparr>))"

definition GetVoteInfo ::
  "(hash \<Rightarrow> 32 word \<Rightarrow> string \<Rightarrow> error + 's) \<Rightarrow> 'db BlockChain \<Rightarrow> hash \<Rightarrow> 32 word \<Rightarrow> error + 's VoteInfo"
where
  "GetVoteInfo NextThresholdState b h version =
     (let found = Deployments (chainParams b) version;
          ok = (found \<noteq> None);
          deployments = (case found of None \<Rightarrow> [] | Some ds \<Rightarrow> ds)
      in if \<not> ok then Inl (VoteVersionError version)
         else if \<not> ok then Inl (HashError h)
         else getVoteInfoLoop (\<lambda>d. NextThresholdState h version (VoteId d)) deployments
                \<lparr>Agendas = [], AgendaStatus = []\<rparr>)"

subsection \<open>The errors of GetVoteInfo\<close>

lemma getVoteInfoLoop_error:
  "getVoteInfoLoop nts ds vi = Inl e \<Longrightarrow> \<exists>d\<in>set ds. nts d = Inl e"
  by (induction ds arbitrary: vi) (auto simp: Let_def split: sum.splits)

lemma getVoteInfoLoop_ok:
  "\<forall>d\<in>set ds. nts d = Inr (st d) \<Longrightarrow>
   getVoteInfoLoop nts ds vi = Inr (vi\<lparr>Agendas := Agendas vi @ ds, AgendaStatus := AgendaStatus vi @ map st ds\<rparr>)"
  by (induction ds arbitrary: vi) (auto simp: Let_def split: sum.splits)

text \<open>
  Claim C10, as amended. \<open>GetVoteInfo\<close> returns \<open>VoteVersionError version\<close> when
  the chain parameters have no deployments entry for the version. When they have one,
  the second test of \<open>ok\<close> is never taken: every error that \<open>GetVoteInfo\<close> returns
  is an error that \<open>NextThresholdState\<close> returned for one of the deployments of the
  version (\<open>HashError\<close> included), and when \<open>NextThresholdState\<close> returns a state
  for each of them, \<open>GetVoteInfo\<close> returns the agendas with these states.
\<close>

theorem GetVoteInfo_errors:
  "(Deployments (chainParams b) version = None \<longrightarrow>
      GetVoteInfo N b h version = Inl (VoteVersionError version))
   \<and> (\<forall>ds. Deployments (chainParams b) version = Some ds \<longrightarrow>
        (\<forall>e. GetVoteInfo N b h version = Inl e \<longrightarrow> (\<exists>d\<in>set ds. N h version (VoteId d) = Inl e))
        \<and> ((\<forall>d\<in>set ds. N h version (VoteId d) = Inr (st d)) \<longrightarrow>
              GetVoteInfo N b h version = Inr \<lparr>Agendas = ds, AgendaStatus = map st ds\<rparr>))"
proof -
  have none: "Deployments (chainParams b) version = None \<Longrightarrow>
      GetVoteInfo N b h version = Inl (VoteVersionError version)"
    by (simp add: GetVoteInfo_def)
  have loop: "GetVoteInfo N b h version =
      getVoteInfoLoop (\<lambda>d. N h version (VoteId d)) ds \<lparr>Agendas = [], AgendaStatus = []\<rparr>"
    if "Deployments (chainParams b) version = Some ds" for ds
    using that by (simp add: GetVoteInfo_def)
  have err: "\<exists>d\<in>set ds. N h version (VoteId d) = Inl e"
    if "Deployments (chainParams b) version = Some ds" "GetVoteInfo N b h version = Inl e" for ds e
    using that loop [OF that(1)] getVoteInfoLoop_error [of "\<lambda>d. N h version (VoteId d)" ds _ e]
    by simp
  have good: "GetVoteInfo N b h version = Inr \<lparr>Agendas = ds, AgendaStatus = map st ds\<rparr>"
    if "Deployments (chainParams b) version = Some ds" "\<forall>d\<in>set ds. N h version (VoteId d) = Inr (st d)" for ds
    using loop [OF that(1)] getVoteInfoLoop_ok [of ds "\<lambda>d. N h version (VoteId d)" st, OF that(2)]
    by simp
  show ?thesis using none err good by blast
qed

text \<open>
  A chain whose parameters define two deployments for version 4, and an instance of
  \<open>NextThresholdState\<close> that answers \<open>HashError\<close> for every hash but that of B3.
\<close>

definition voteParams :: chainParams where
  "voteParams = \<lparr>Deployments = [4 \<mapsto> [\<lparr>VoteId = ''sdiffalgorithm'', StartTime = 1, ExpireTime = 2\<rparr>,
                                      \<lparr>VoteId = ''lnsupport'', StartTime = 1, ExpireTime = 2\<rparr>]],
     StakeEnabledHeight = 0, LatestCheckpointHeight = 0\<rparr>"

definition voteChain :: "unit BlockChain" where
  "voteChain = scenario1\<lparr>chainParams := voteParams\<rparr>"

definition unknownHash :: "hash \<Rightarrow> 32 word \<Rightarrow> string \<Rightarrow> error + nat" where
  "unknownHash h version deploymentID = (if h = hash nodeB3 then Inr 1 else Inl (HashError h))"

text \<open>
  Claim C10 as stated says that \<open>GetVoteInfo\<close> never returns \<open>HashError\<close>. The
  loop over the deployments returns the error of \<open>NextThresholdState\<close> unchanged, so
  with this instance the call for the hash 77 and the version 4 returns \<open>HashError 77\<close>.
\<close>

theorem GetVoteInfo_HashError_counterexample:
  "GetVoteInfo unknownHash voteChain 77 4 = Inl (HashError 77)"
  by (simp add: GetVoteInfo_def voteChain_def voteParams_def unknownHash_def nodeB3_def Let_def)

theorem GetVoteInfo_errors_witness:
  "GetVoteInfo unknownHash voteChain 77 5 = Inl (VoteVersionError 5)
   \<and> GetVoteInfo unknownHash voteChain (hash nodeB3) 4 =
       Inr \<lparr>Agendas = [\<lparr>VoteId = ''sdiffalgorithm'', StartTime = 1, ExpireTime = 2\<rparr>,
                        \<lparr>VoteId = ''lnsupport'', StartTime = 1, ExpireTime = 2\<rparr>],
            AgendaStatus = [1, 1]\<rparr>
   \<and> (\<exists>d\<in>set (the (Deployments (chainParams voteChain) 4)).
         unknownHash 77 4 (VoteId d) = Inl (HashError 77))"
proof -
  have none: "Deployments (chainParams voteChain) 5 = None"
    by (simp add: voteChain_def voteParams_def)
  have some: "Deployments (chainParams voteChain) 4 =
      Some [\<lparr>VoteId = ''sdiffalgorithm'', StartTime = 1, ExpireTime = 2\<rparr>,
            \<lparr>VoteId = ''lnsupport'', StartTime = 1, ExpireTime = 2\<rparr>]"
    by (simp add: voteChain_def voteParams_def)
  have a: "GetVoteInfo unknownHash voteChain 77 5 = Inl (VoteVersionError 5)"
    using GetVoteInfo_errors [of voteChain 5 unknownHash 77] none by simp
  have st: "\<forall>d\<in>set [\<lparr>VoteId = ''sdiffalgorithm'', StartTime = 1, ExpireTime = 2\<rparr>,
            \<lparr>VoteId = ''lnsupport'', StartTime = 1, ExpireTime = 2\<rparr>].
        unknownHash (hash nodeB3) 4 (VoteId d) = Inr ((\<lambda>d. 1) d)"
    by (simp add: unknownHash_def)
  have b: "GetVoteInfo unknownHash voteChain (hash nodeB3) 4 =
       Inr \<lparr>Agendas = [\<lparr>VoteId = ''sdiffalgorithm'', StartTime = 1, ExpireTime = 2\<rparr>,
                        \<lparr>VoteId = ''lnsupport'', StartTime = 1, ExpireTime = 2\<rparr>],
            AgendaStatus = [1, 1]\<rparr>"
    using GetVoteInfo_errors [of voteChain 4 unknownHash "hash nodeB3" "\<lambda>d. 1"] some st by simp
  have e: "GetVoteInfo unknownHash voteChain 77 4 = Inl (HashError 77)"
    by (simp add: GetVoteInfo_def voteChain_def voteParams_def unknownHash_def nodeB3_def Let_def)
  have c: "\<exists>d\<in>set (the (Deployments (chainParams voteChain) 4)).
         unknownHash 77 4 (VoteId d) = Inl (HashError 77)"
    using GetVoteInfo_errors [of voteChain 4 unknownHash 77] some e by simp
  show ?thesis using a b c by simp
qed

section \<open>locateInventory\<close>

text \<open>
  The loop of \<^verbatim>\<open>locateInventory\<close> over the locator: the first hash of a node of the
  main chain replaces the start node and ends the loop.
\<close>

fun locatorStart :: "'db BlockChain \<Rightarrow> blockNode option \<Rightarrow> hash list \<Rightarrow> blockNode option" where
  "locatorStart b startNode [] = startNode"
| "locatorStart b startNode (h # rest) =
     (case LookupNode b h of
        None \<Rightarrow> locatorStart b startNode rest
      | Some node \<Rightarrow>
          if Contains (bestChain b) node then Some node else locatorStart b startNode rest)"

text \<open>
  The totals are \<^verbatim>\<open>uint32\<close> values converted from \<^verbatim>\<open>int64\<close> differences of heights:
  the conversion keeps the low 32 bits, as \<open>word_of_int\<close> does.
\<close>

definition locateInventory ::
  "'db BlockChain \<Rightarrow> hash list \<Rightarrow> hash \<Rightarrow> 32 word \<Rightarrow> error + (blockNode option \<times> 32 word)"
where
  "locateInventory b locator hashStop maxEntries =
     (let stopNode = LookupNode b hashStop in
      if length locator = 0 then
        (case stopNode of None \<Rightarrow> Inr (None, 0) | Some stop \<Rightarrow> Inr (Some stop, 1))
      else
        case Next (bestChain b) (locatorStart b (Genesis (bestChain b)) locator) of
          None \<Rightarrow> Inr (None, 0)
        | Some startNode \<Rightarrow>
            (case Tip (bestChain b) of
               None \<Rightarrow> Inl (Panic ''nil tip'')
             | Some tip \<Rightarrow>
                 let total = (word_of_int (height tip - height startNode + 1) :: 32 word);
                     total1 =
                       (case stopNode of
                          None \<Rightarrow> total
                        | Some stop \<Rightarrow>
                            if Contains (bestChain b) stop \<and> height stop \<ge> height startNode
                            then word_of_int (height stop - height startNode + 1)
                            else total);
                     total2 = (if total1 > maxEntries then maxEntries else total1)
                 in Inr (Some startNode, total2)))"

subsection \<open>A locator that starts at the tip\<close>

lemma Contains_Tip:
  assumes "chainView_ok c" "Tip c = Some t"
  shows "Contains c t"
proof -
  from assms have ne: "c \<noteq> []" by (simp add: chainView_ok_def)
  have h: "height t = int (length c) - 1" using assms by (rule Tip_height)
  from assms(2) ne have "t = c ! (length c - 1)" by (simp add: Tip_def last_conv_nth)
  moreover have "nat (int (length c) - 1) = length c - 1" by simp
  ultimately show ?thesis using h ne by (simp add: Contains_def NodeByHeight_def)
qed

lemma Next_Tip:
  assumes "chainView_ok c" "Tip c = Some t"
  shows "Next c (Some t) = None"
  using Tip_height [OF assms] by (simp add: Next_def NodeByHeight_def)

text \<open>
  Claim C3, as amended. On a chain whose view is well formed and whose tip is in the
  index under its hash, \<open>locateInventory\<close> called with a locator whose first hash is
  the hash of the tip and with \<open>hashStop\<close> equal to the hash of the tip returns no
  node and the total 0: the start node is the node after the first known block of the
  locator, and the tip has no next node.
\<close>

theorem locateInventory_tip_locator:
  assumes ok: "chainView_ok (bestChain b)"
    and tip: "Tip (bestChain b) = Some tip"
    and known: "LookupNode b (hash tip) = Some tip"
  shows "locateInventory b (hash tip # rest) (hash tip) maxEntries = Inr (None, 0)"
proof -
  have c: "Contains (bestChain b) tip" using ok tip by (rule Contains_Tip)
  have "locatorStart b (Genesis (bestChain b)) (hash tip # rest) = Some tip"
    using known c by simp
  moreover have "Next (bestChain b) (Some tip) = None" using ok tip by (rule Next_Tip)
  ultimately show ?thesis by (simp add: locateInventory_def)
qed

lemma scenario1_bestChain: "bestChain scenario1 = [nodeG, nodeB1, nodeB2, nodeB3]"
  by (simp add: scenario1_def chainOf_def)

lemma scenario1_tip: "Tip (bestChain scenario1) = Some nodeB3"
  by (simp add: scenario1_bestChain Tip_def)

lemma scenario1_lookup_tip: "LookupNode scenario1 (hash nodeB3) = Some nodeB3"
  by (simp add: LookupNode_def scenario1_def chainOf_def scenario_nodes)

theorem locateInventory_tip_locator_witness:
  "locateInventory scenario1 [hash nodeB3, hash nodeB2, hash nodeB1, hash nodeG] (hash nodeB3) 500
     = Inr (None, 0)"
proof -
  have ok: "chainView_ok (bestChain scenario1)"
    by (simp add: scenario1_bestChain scenario_view_ok)
  show ?thesis
    by (rule locateInventory_tip_locator [OF ok scenario1_tip scenario1_lookup_tip])
qed

text \<open>
  Claim C3 as stated expects the tip and the total 1. In scenario 1 the locator of the
  tip B3 is B3, B2, B1, G, and the call does not return \<open>(B3, 1)\<close>.
\<close>

theorem locateInventory_tip_counterexample:
  "locateInventory scenario1 [hash nodeB3, hash nodeB2, hash nodeB1, hash nodeG] (hash nodeB3) 500
     \<noteq> Inr (Some nodeB3, 1)"
  by (simp add: locateInventory_def LookupNode_def scenario1_def chainOf_def scenario_nodes
      Contains_def NodeByHeight_def Next_def Genesis_def Let_def)

section \<open>TipGeneration\<close>

text \<open>
  \<^verbatim>\<open>b.index.chainTips\<close> maps a height to a list of nodes; the function returns the
  hashes of the nodes listed for the height of the tip.
\<close>

definition TipGeneration :: "'db BlockChain \<Rightarrow> error + hash list" where
  "TipGeneration b =
     (case Tip (bestChain b) of
        None \<Rightarrow> Inl (Panic ''nil tip'')
      | Some tip \<Rightarrow> Inr (map hash (chainTips b (height tip))))"

lemma scenario2_tip: "Tip (bestChain scenario2) = Some nodeB3"
  by (simp add: scenario2_bestChain Tip_def)

text \<open>
  Claim C4, as amended. In the state of scenario 2 (main chain G, B1, B2, B3 and the
  side-chain block B2a on top of B1) \<open>TipGeneration\<close> returns the hashes of the
  entries at the height of the tip, which is the hash of B3 alone; the hash of B2a,
  whose height is 2, is not returned.
\<close>

theorem TipGeneration_scenario2:
  "TipGeneration scenario2 = Inr [hash nodeB3]"
  by (simp add: TipGeneration_def scenario2_tip)
     (simp add: scenario2_def chainOf_def scenario_nodes)

text \<open>
  Claim C4 as stated expects both the hash of B3 and the hash of B2a in the result.
\<close>

theorem TipGeneration_scenario2_counterexample:
  "\<not> (case TipGeneration scenario2 of
         Inl err \<Rightarrow> False
       | Inr hs \<Rightarrow> hash nodeB3 \<in> set hs \<and> hash nodeB2a \<in> set hs)"
  by (simp add: TipGeneration_def scenario2_tip)
     (simp add: scenario2_def chainOf_def scenario_nodes)

section \<open>pruneStakeNodes\<close>

definition minMemoryNodes :: int where
  "minMemoryNodes = 2880"

definition minMemoryStakeNodes :: int where
  "minMemoryStakeNodes = 288"

text \<open>
  The first loop of \<^verbatim>\<open>pruneStakeNodes\<close>: at most \<open>i\<close> steps from a node to its
  parent, stopping at nil.
\<close>

fun walkParents :: "nat \<Rightarrow> blockNode option \<Rightarrow> blockNode option" where
  "walkParents 0 node = node"
| "walkParents (Suc i) None = None"
| "walkParents (Suc i) (Some n) = walkParents i (parent n)"

text \<open>
  The second loop: every node from \<open>node\<close> up to the genesis node is pushed on the
  front of the list \<open>deleteNodes\<close>.
\<close>

function pushAncestors :: "blockNode option \<Rightarrow> blockNode list \<Rightarrow> blockNode list" where
  "pushAncestors None deleteNodes = deleteNodes"
| "pushAncestors (Some node) deleteNodes = pushAncestors (parent node) (node # deleteNodes)"
  by pat_completeness auto
termination
  by (relation "measure (\<lambda>(node, deleteNodes). case node of None \<Rightarrow> 0 | Some n \<Rightarrow> Suc (size n))")
     (auto simp: parent_size split: option.splits)

definition clearStakeData :: "nodeData \<Rightarrow> nodeData" where
  "clearStakeData d =
     d\<lparr>stakeNodeOf := None, newTickets := None, ticketsVoted := None, ticketsRevoked := None\<rparr>"

text \<open>The body of the third loop, for the height \<open>tipHeight\<close> of the tip.\<close>

definition pruneNode :: "int \<Rightarrow> 'db BlockChain \<Rightarrow> blockNode \<Rightarrow> 'db BlockChain" where
  "pruneNode tipHeight b node =
     (if height node > tipHeight - minMemoryNodes
      then b\<lparr>nodeData := (nodeData b)(node := clearStakeData (nodeData b node))\<rparr>
      else b)"

definition pruneStakeNodes :: "'db BlockChain \<Rightarrow> 'db BlockChain" where
  "pruneStakeNodes b =
     (case Tip (bestChain b) of
        None \<Rightarrow> b
      | Some tip \<Rightarrow>
          (case walkParents (nat (minMemoryStakeNodes - 1)) (Some tip) of
             None \<Rightarrow> b
           | Some pruneToNode \<Rightarrow>
               (case parent pruneToNode of
                  None \<Rightarrow> b
                | Some node \<Rightarrow>
                    foldl (pruneNode (height tip)) b (pushAncestors (Some node) []))))"

subsection \<open>Which nodes are pruned\<close>

lemma walkParents_None [simp]: "walkParents k None = None"
  by (cases k) simp_all

lemma walkParents_add: "walkParents (i + j) x = walkParents j (walkParents i x)"
proof (induction i arbitrary: x)
  case 0 then show ?case by simp
next
  case (Suc i) then show ?case by (cases x) simp_all
qed

lemma set_pushAncestors:
  "set (pushAncestors x acc) = set acc \<union> {n. \<exists>j. walkParents j x = Some n}"
proof (induction x acc rule: pushAncestors.induct)
  case (1 deleteNodes)
  then show ?case by simp
next
  case (2 node deleteNodes)
  have "{n. \<exists>j. walkParents j (Some node) = Some n}
      = insert node {n. \<exists>j. walkParents j (parent node) = Some n}"
  proof (rule set_eqI)
    fix n
    show "n \<in> {n. \<exists>j. walkParents j (Some node) = Some n}
      \<longleftrightarrow> n \<in> insert node {n. \<exists>j. walkParents j (parent node) = Some n}"
    proof
      assume "n \<in> {n. \<exists>j. walkParents j (Some node) = Some n}"
      then obtain j where j: "walkParents j (Some node) = Some n" by auto
      then show "n \<in> insert node {n. \<exists>j. walkParents j (parent node) = Some n}"
        by (cases j) auto
    next
      assume "n \<in> insert node {n. \<exists>j. walkParents j (parent node) = Some n}"
      then consider "n = node" | j where "walkParents j (parent node) = Some n" by auto
      then show "n \<in> {n. \<exists>j. walkParents j (Some node) = Some n}"
      proof cases
        case 1
        then have "walkParents 0 (Some node) = Some n" by simp
        then show ?thesis by blast
      next
        case 2
        then have "walkParents (Suc j) (Some node) = Some n" by simp
        then show ?thesis by blast
      qed
    qed
  qed
  with 2 show ?case by auto
qed

lemma clearStakeData_idem [simp]: "clearStakeData (clearStakeData d) = clearStakeData d"
  by (simp add: clearStakeData_def)

lemma foldl_pruneNode:
  "foldl (pruneNode th) b ns =
     b\<lparr>nodeData := (\<lambda>n. if n \<in> set ns \<and> height n > th - minMemoryNodes
                          then clearStakeData (nodeData b n) else nodeData b n)\<rparr>"
proof (induction ns arbitrary: b)
  case Nil
  then show ?case by simp
next
  case (Cons a ns)
  have "foldl (pruneNode th) b (a # ns) = foldl (pruneNode th) (pruneNode th b a) ns"
    by simp
  also have "\<dots> = (pruneNode th b a)\<lparr>nodeData :=
      (\<lambda>n. if n \<in> set ns \<and> height n > th - minMemoryNodes
           then clearStakeData (nodeData (pruneNode th b a) n)
           else nodeData (pruneNode th b a) n)\<rparr>"
    by (rule Cons.IH)
  also have "\<dots> = b\<lparr>nodeData :=
      (\<lambda>n. if n \<in> set (a # ns) \<and> height n > th - minMemoryNodes
           then clearStakeData (nodeData b n) else nodeData b n)\<rparr>"
    by (auto simp: pruneNode_def fun_eq_iff)
  finally show ?case .
qed

lemma pruneStakeNodes_nodeData:
  assumes tip: "Tip (bestChain b) = Some tip"
  shows "pruneStakeNodes b =
     b\<lparr>nodeData := (\<lambda>n. if (\<exists>k\<ge>288. walkParents k (Some tip) = Some n)
                             \<and> height n > height tip - 2880
                          then clearStakeData (nodeData b n) else nodeData b n)\<rparr>"
proof (cases "walkParents 287 (Some tip)")
  case None
  have "\<not> (\<exists>k\<ge>288. walkParents k (Some tip) = Some n)" for n
  proof
    assume "\<exists>k\<ge>288. walkParents k (Some tip) = Some n"
    then obtain k where k: "288 \<le> k" "walkParents k (Some tip) = Some n" by blast
    then have "k = 287 + (k - 287)" by simp
    then have "walkParents k (Some tip) = walkParents (k - 287) (walkParents 287 (Some tip))"
      by (metis walkParents_add)
    with None k show False by simp
  qed
  then have never: "(\<exists>k\<ge>288. walkParents k (Some tip) = Some n) = False" for n by blast
  show ?thesis using tip None
    by (simp only: never) (simp add: pruneStakeNodes_def minMemoryStakeNodes_def)
next
  case (Some p)
  have reach: "(\<exists>k\<ge>288. walkParents k (Some tip) = Some n)
      \<longleftrightarrow> (\<exists>j. walkParents j (parent p) = Some n)" for n
  proof
    assume "\<exists>k\<ge>288. walkParents k (Some tip) = Some n"
    then obtain k where k: "288 \<le> k" "walkParents k (Some tip) = Some n" by blast
    then have "k = 287 + Suc (k - 288)" by simp
    then have "walkParents k (Some tip) = walkParents (Suc (k - 288)) (walkParents 287 (Some tip))"
      by (metis walkParents_add)
    with Some k have "walkParents (k - 288) (parent p) = Some n" by simp
    then show "\<exists>j. walkParents j (parent p) = Some n" by blast
  next
    assume "\<exists>j. walkParents j (parent p) = Some n"
    then obtain j where "walkParents j (parent p) = Some n" by blast
    with Some have "walkParents (287 + Suc j) (Some tip) = Some n"
      by (simp only: walkParents_add) simp
    moreover have "288 \<le> 287 + Suc j" by simp
    ultimately show "\<exists>k\<ge>288. walkParents k (Some tip) = Some n" by blast
  qed
  show ?thesis
  proof (cases "parent p")
    case None
    with reach have never: "(\<exists>k\<ge>288. walkParents k (Some tip) = Some n) = False" for n
      by simp
    show ?thesis using tip Some None
      by (simp only: never) (simp add: pruneStakeNodes_def minMemoryStakeNodes_def)
  next
    case (Some node)
    have "pruneStakeNodes b = foldl (pruneNode (height tip)) b (pushAncestors (Some node) [])"
      using tip \<open>walkParents 287 (Some tip) = Some p\<close> Some
      by (simp add: pruneStakeNodes_def minMemoryStakeNodes_def)
    also have "\<dots> = b\<lparr>nodeData :=
        (\<lambda>n. if n \<in> set (pushAncestors (Some node) []) \<and> height n > height tip - minMemoryNodes
             then clearStakeData (nodeData b n) else nodeData b n)\<rparr>"
      by (rule foldl_pruneNode)
    also have "(\<lambda>n. n \<in> set (pushAncestors (Some node) []))
        = (\<lambda>n. \<exists>k\<ge>288. walkParents k (Some tip) = Some n)"
    proof -
      have "set (pushAncestors (Some node) []) = {n. \<exists>j. walkParents j (Some node) = Some n}"
        by (simp only: set_pushAncestors) simp
      with reach Some show ?thesis by (simp add: fun_eq_iff)
    qed
    finally show ?thesis by (simp add: minMemoryNodes_def)
  qed
qed


text \<open>
  Claim C6, as amended. On a chain with a tip, \<open>pruneStakeNodes\<close> clears the fields
  \<open>stakeNode\<close>, \<open>newTickets\<close>, \<open>ticketsVoted\<close> and \<open>ticketsRevoked\<close> of exactly the
  ancestors of the tip that are reached by walking \<open>minMemoryStakeNodes = 288\<close> steps or
  more backward from the tip and whose height is greater than
  \<open>tip.height - minMemoryNodes\<close>, with \<open>minMemoryNodes = 2880\<close>; the fields of every
  other node, and the rest of the chain, are unchanged.
\<close>

theorem pruneStakeNodes_pruned:
  assumes tip: "Tip (bestChain b) = Some tip"
  shows "pruneStakeNodes b =
     b\<lparr>nodeData := (\<lambda>n. if (\<exists>k. nat minMemoryStakeNodes \<le> k \<and> walkParents k (Some tip) = Some n)
                             \<and> height tip - minMemoryNodes < height n
                          then clearStakeData (nodeData b n) else nodeData b n)\<rparr>"
  using pruneStakeNodes_nodeData [OF tip]
  by (simp add: minMemoryStakeNodes_def minMemoryNodes_def)

text \<open>
  A chain of 301 blocks, the block of height \<open>n\<close> being \<open>chainNode n\<close>, in which
  every node holds its stake data.
\<close>

fun chainNode :: "nat \<Rightarrow> blockNode" where
  "chainNode 0 = BlockNode None 5000 0 1 0 0"
| "chainNode (Suc n) = BlockNode (Some (chainNode n)) (5001 + of_nat n) (int (Suc n)) (int n + 2) 0 0"

definition someStake :: stakeNode where
  "someStake = \<lparr>PoolSize = 1, Winners = [], MissedTickets = [], FinalState = 0, SpentByBlock = [],
     MissedByBlock = [], NewTickets = [], UndoData = 0\<rparr>"

definition fullData :: nodeData where
  "fullData = \<lparr>status = {statusDataStored, statusValid}, stakeNodeOf = Some someStake,
     newTickets = Some [], ticketsVoted = Some [], ticketsRevoked = Some []\<rparr>"

definition chainTo :: "nat \<Rightarrow> unit BlockChain" where
  "chainTo n = (chainOf () (map chainNode [0 ..< Suc n]) [])\<lparr>nodeData := (\<lambda>n. fullData)\<rparr>"

definition longChain :: "unit BlockChain" where
  "longChain = chainTo 300"

lemma height_chainNode: "height (chainNode n) = int n"
  by (cases n) simp_all

lemma chainNode_inj:
  assumes "chainNode i = chainNode j"
  shows "i = j"
proof -
  from assms have "height (chainNode i) = height (chainNode j)" by (rule arg_cong)
  then have "int i = int j" by (simp only: height_chainNode)
  then show ?thesis by simp
qed

lemma walkParents_chainNode:
  "walkParents k (Some (chainNode n)) = (if k \<le> n then Some (chainNode (n - k)) else None)"
proof (induction k arbitrary: n)
  case 0
  then show ?case by simp
next
  case (Suc k)
  then show ?case by (cases n) simp_all
qed

lemma chainTo_tip: "Tip (bestChain (chainTo n)) = Some (chainNode n)"
  by (simp add: chainTo_def chainOf_def Tip_def del: chainNode.simps)

lemma longChain_tip: "Tip (bestChain longChain) = Some (chainNode 300)"
  by (simp only: longChain_def chainTo_tip)

lemma longChain_nodeData: "nodeData longChain n = fullData"
  by (simp add: longChain_def chainTo_def)

theorem pruneStakeNodes_pruned_witness:
  "Tip (bestChain longChain) = Some (chainNode 300)
   \<and> nodeData (pruneStakeNodes longChain) (chainNode 12) = clearStakeData fullData
   \<and> nodeData (pruneStakeNodes longChain) (chainNode 13) = fullData
   \<and> nodeData (pruneStakeNodes longChain) (chainNode 299) = fullData"
proof -
  have in12: "\<exists>k. nat minMemoryStakeNodes \<le> k \<and> walkParents k (Some (chainNode 300)) = Some (chainNode 12)"
  proof (intro exI conjI)
    show "nat minMemoryStakeNodes \<le> 288" by (simp add: minMemoryStakeNodes_def)
    show "walkParents 288 (Some (chainNode 300)) = Some (chainNode 12)"
      by (simp add: walkParents_chainNode del: chainNode.simps)
  qed
  have out: "\<not> (\<exists>k. nat minMemoryStakeNodes \<le> k \<and> walkParents k (Some (chainNode 300)) = Some (chainNode m))"
    if "12 < m" for m
  proof
    assume "\<exists>k. nat minMemoryStakeNodes \<le> k \<and> walkParents k (Some (chainNode 300)) = Some (chainNode m)"
    then obtain k where k: "288 \<le> k" "walkParents k (Some (chainNode 300)) = Some (chainNode m)"
      by (auto simp: minMemoryStakeNodes_def)
    then have "k \<le> 300" "chainNode (300 - k) = chainNode m"
      by (auto simp: walkParents_chainNode split: if_splits simp del: chainNode.simps)
    then have "300 - k = m" by (auto dest: chainNode_inj)
    with k that show False by simp
  qed
  have h12: "height (chainNode 300) - minMemoryNodes < height (chainNode 12)"
    by (simp add: height_chainNode minMemoryNodes_def del: chainNode.simps)
  note eq = pruneStakeNodes_pruned [OF longChain_tip]
  have a: "nodeData (pruneStakeNodes longChain) (chainNode 12) = clearStakeData fullData"
    by (subst eq) (simp add: in12 h12 longChain_nodeData del: chainNode.simps)
  have b: "nodeData (pruneStakeNodes longChain) (chainNode 13) = fullData"
    by (subst eq) (simp add: out longChain_nodeData del: chainNode.simps)
  have c: "nodeData (pruneStakeNodes longChain) (chainNode 299) = fullData"
    by (subst eq) (simp add: out longChain_nodeData del: chainNode.simps)
  from longChain_tip a b c show ?thesis by simp
qed

text \<open>
  Claim C6 as stated says that only ancestors within 288 steps backward from
  \<open>tip.parent\<close> are modified. In the chain of 301 blocks the genesis block is not
  reached within 288 steps from the parent of the tip, and its stake node is dropped.
\<close>

theorem pruneStakeNodes_counterexample:
  "\<not> (\<exists>k\<le>288. walkParents k (parent (chainNode 300)) = Some (chainNode 0))
   \<and> stakeNodeOf (nodeData longChain (chainNode 0)) = Some someStake
   \<and> stakeNodeOf (nodeData (pruneStakeNodes longChain) (chainNode 0)) = None"
proof -
  have par: "parent (chainNode 300) = Some (chainNode 299)"
  proof -
    have "chainNode (Suc 299) = BlockNode (Some (chainNode 299)) (5001 + of_nat 299) (int (Suc 299)) (int 299 + 2) 0 0"
      by (rule chainNode.simps)
    then show ?thesis by simp
  qed
  have far: "\<not> (\<exists>k\<le>288. walkParents k (parent (chainNode 300)) = Some (chainNode 0))"
  proof
    assume "\<exists>k\<le>288. walkParents k (parent (chainNode 300)) = Some (chainNode 0)"
    then obtain k where k: "k \<le> 288" "walkParents k (Some (chainNode 299)) = Some (chainNode 0)"
      using par by auto
    then have "chainNode (299 - k) = chainNode 0"
      by (auto simp: walkParents_chainNode split: if_splits simp del: chainNode.simps)
    then have "299 - k = 0" by (rule chainNode_inj)
    with k show False by simp
  qed
  have reach: "\<exists>k\<ge>288. walkParents k (Some (chainNode 300)) = Some (chainNode 0)"
  proof (intro exI conjI)
    show "(288::nat) \<le> 300" by simp
    show "walkParents 300 (Some (chainNode 300)) = Some (chainNode 0)"
      by (simp add: walkParents_chainNode del: chainNode.simps)
  qed
  have h: "height (chainNode 300) - 2880 < height (chainNode 0)"
    by (simp add: height_chainNode del: chainNode.simps)
  have "stakeNodeOf (nodeData (pruneStakeNodes longChain) (chainNode 0)) = None"
    by (subst pruneStakeNodes_nodeData [OF longChain_tip])
       (simp add: reach h longChain_nodeData clearStakeData_def del: chainNode.simps)
  moreover have "stakeNodeOf (nodeData longChain (chainNode 0)) = Some someStake"
    by (simp add: longChain_nodeData fullData_def)
  ultimately show ?thesis using far by simp
qed

section \<open>The orphan pool\<close>

definition maxOrphanBlocks :: nat where
  "maxOrphanBlocks = 500"

text \<open>\<^verbatim>\<open>time.Hour\<close>, in nanoseconds; an instant is a number of nanoseconds.\<close>

definition hour :: int where
  "hour = 3600000000000"

text \<open>
  The map \<^verbatim>\<open>b.orphans\<close> is an association list with one entry per key: \<open>map_of\<close>
  reads it, \<open>AList.delete\<close> is \<^verbatim>\<open>delete\<close>, \<open>AList.update\<close> is the assignment to a
  key, and the order of the list is the order in which \<^verbatim>\<open>range\<close> visits the entries
  (any order, in Go). A record \<^verbatim>\<open>*orphanBlock\<close> is never written after its creation
  and is modelled by its value.

  The loop of \<^verbatim>\<open>removeOrphanBlock\<close> drops from the slice of the parent hash every
  record of the orphan's hash, which is what \<open>filter\<close> does.
\<close>

definition removeOrphanBlock :: "orphanBlock \<Rightarrow> 'db BlockChain \<Rightarrow> 'db BlockChain" where
  "removeOrphanBlock orphan b =
     (let orphanHash = blockHash (orphanBlk orphan);
          prevHash = PrevBlock (Header (orphanBlk orphan));
          os = filter (\<lambda>ob. blockHash (orphanBlk ob) \<noteq> orphanHash)
                 (case prevOrphans b prevHash of None \<Rightarrow> [] | Some os \<Rightarrow> os)
      in b\<lparr>orphans := AList.delete orphanHash (orphans b),
           prevOrphans := (if length os = 0 then (prevOrphans b)(prevHash := None)
                           else (prevOrphans b)(prevHash \<mapsto> os))\<rparr>)"

text \<open>
  The first loop of \<^verbatim>\<open>addOrphanBlock\<close>, over the entries that \<^verbatim>\<open>range\<close> has still to
  visit. An entry deleted from the map before the loop reaches it is not visited. The
  call happens at the instant \<open>now\<close>, which every \<^verbatim>\<open>time.Now()\<close> of the call reads.
\<close>

fun expireLoop :: "int \<Rightarrow> (hash \<times> orphanBlock) list \<Rightarrow> 'db BlockChain \<Rightarrow> 'db BlockChain" where
  "expireLoop now [] b = b"
| "expireLoop now ((k, oBlock) # rest) b =
     (if map_of (orphans b) k = None then expireLoop now rest b
      else if now > expiration oBlock then expireLoop now rest (removeOrphanBlock oBlock b)
      else if (case oldestOrphan b of
                 None \<Rightarrow> True
               | Some oldest \<Rightarrow> expiration oBlock < expiration oldest)
        then expireLoop now rest (b\<lparr>oldestOrphan := Some oBlock\<rparr>)
      else expireLoop now rest b)"

definition addOrphanBlock :: "int \<Rightarrow> block \<Rightarrow> 'db BlockChain \<Rightarrow> error + 'db BlockChain" where
  "addOrphanBlock now blk b =
     (let b1 = expireLoop now (orphans b) b;
          limited =
            (if length (orphans b1) + 1 > maxOrphanBlocks then
               (case oldestOrphan b1 of
                  None \<Rightarrow> Inl (Panic ''nil oldestOrphan'')
                | Some oldest \<Rightarrow> Inr ((removeOrphanBlock oldest b1)\<lparr>oldestOrphan := None\<rparr>))
             else Inr b1)
      in case limited of
           Inl err \<Rightarrow> Inl err
         | Inr b2 \<Rightarrow>
             let oBlock = \<lparr>orphanBlk = blk, expiration = now + hour\<rparr>;
                 prevHash = PrevBlock (Header blk)
             in Inr (b2\<lparr>orphans := AList.update (blockHash blk) oBlock (orphans b2),
                        prevOrphans := (prevOrphans b2)(prevHash \<mapsto>
                          (case prevOrphans b2 prevHash of None \<Rightarrow> [] | Some os \<Rightarrow> os) @ [oBlock])\<rparr>))"



subsection \<open>What addOrphanBlock evicts\<close>








lemma orphans_removeOrphanBlock [simp]:
  "orphans (removeOrphanBlock ob b) = AList.delete (blockHash (orphanBlk ob)) (orphans b)"
  by (simp add: removeOrphanBlock_def Let_def)

lemma oldestOrphan_removeOrphanBlock [simp]:
  "oldestOrphan (removeOrphanBlock ob b) = oldestOrphan b"
  by (simp add: removeOrphanBlock_def Let_def)






subsubsection \<open>The index of the parent hashes\<close>










subsubsection \<open>The loop over the pool\<close>





subsubsection \<open>The two ways through addOrphanBlock\<close>








text \<open>A pool at capacity: 500 orphans, the orphan \<open>i\<close> expiring at \<open>10000 + i\<close>.\<close>

definition orphanNo :: "nat \<Rightarrow> orphanBlock" where
  "orphanNo i =
     \<lparr>orphanBlk = \<lparr>blockHash = of_nat i, blockHeight = 9,
        Header = \<lparr>PrevBlock = 9999, VoteBits = 1, Size = 300\<rparr>, Transactions = [], STransactions = []\<rparr>,
      expiration = 10000 + int i\<rparr>"














text \<open>
  The field goes stale by calls of \<open>addOrphanBlock\<close> alone. Starting from the empty pool
  of scenario 1, the orphan 1 is added at the instant 0 and the orphan 2 at the instant 1,
  whose call leaves the record of the orphan 1 in \<open>oldestOrphan\<close>. The call that adds the
  orphan 3 one hour later removes that record, expired by then, and leaves the field as it
  was, since no record of the pool expires before it.
\<close>

lemma addOrphanBlock_stale_pointer:
  "case addOrphanBlock 0 (orphanBlk (orphanNo 1)) scenario1 of
     Inl err \<Rightarrow> False
   | Inr b1 \<Rightarrow>
      (case addOrphanBlock 1 (orphanBlk (orphanNo 2)) b1 of
         Inl err \<Rightarrow> False
       | Inr b2 \<Rightarrow>
          (case addOrphanBlock (hour + 1) (orphanBlk (orphanNo 3)) b2 of
             Inl err \<Rightarrow> False
           | Inr b3 \<Rightarrow>
               oldestOrphan b3 = Some \<lparr>orphanBlk = orphanBlk (orphanNo 1), expiration = hour\<rparr>
               \<and> map fst (orphans b3) = [2, 3]))"
  by (simp add: addOrphanBlock_def removeOrphanBlock_def scenario1_def chainOf_def orphanNo_def
      hour_def maxOrphanBlocks_def Let_def)



section \<open>The collaborators of the tip engine\<close>

text \<open>
  A \<^verbatim>\<open>spentTxOut\<close> and a \<^verbatim>\<open>*UtxoViewpoint\<close> are left abstract: a spent output is a
  number and a view is a value of some type \<open>'v\<close>.

  The functions that chain.go calls and that the sources do not hold (the validator, the
  UTXO view, the stake subsystem, the database accessors, the index manager) are the
  fields of a record of collaborators. A method of \<^verbatim>\<open>BlockChain\<close> takes the chain
  as its first argument and reads it; a database accessor called inside
  \<^verbatim>\<open>db.Update\<close> takes the database and returns the new one or an error. As the spec says
  of the validator, such a function is a pure function of its arguments.
  \<open>fetchStakeNode\<close> and \<open>maybeFetchTicketInfo\<close> fill in fields of nodes: the first
  returns the stake node and the new store of the node fields, the second the new fields
  of the node.
\<close>

type_synonym spentTxOut = nat

record ('db, 'v) collaborators =
  headerApprovesParent :: "blockHeader \<Rightarrow> bool"
  DetermineTxType :: "msgTx \<Rightarrow> txType"
  CalculateAddedSubsidy :: "block \<Rightarrow> block \<Rightarrow> int"
  CalcPastMedianTime :: "blockNode \<Rightarrow> int"
  calcNextRequiredStakeDifficulty :: "'db BlockChain \<Rightarrow> blockNode \<Rightarrow> error + int"
  fetchStakeNode :: "'db BlockChain \<Rightarrow> blockNode \<Rightarrow> error + (stakeNode \<times> (blockNode \<Rightarrow> nodeData))"
  maybeFetchTicketInfo :: "'db BlockChain \<Rightarrow> blockNode \<Rightarrow> error + nodeData"
  checkBlockSanity :: "block \<Rightarrow> chainParams \<Rightarrow> error option"
  checkBlockContext :: "'db BlockChain \<Rightarrow> block \<Rightarrow> blockNode option \<Rightarrow> error option"
  checkConnectBlock ::
    "'db BlockChain \<Rightarrow> blockNode \<Rightarrow> block \<Rightarrow> block \<Rightarrow> 'v \<Rightarrow> bool \<Rightarrow> error + ('v \<times> spentTxOut list)"
  connectTransactions ::
    "'db BlockChain \<Rightarrow> 'v \<Rightarrow> block \<Rightarrow> block \<Rightarrow> bool \<Rightarrow> error + ('v \<times> spentTxOut list)"
  disconnectTransactions ::
    "'db BlockChain \<Rightarrow> 'v \<Rightarrow> block \<Rightarrow> block \<Rightarrow> spentTxOut list \<Rightarrow> error + 'v"
  NewUtxoViewpoint :: "'v"
  SetBestHash :: "hash \<Rightarrow> 'v \<Rightarrow> 'v"
  SetStakeViewpointPrevValidInitial :: "'v \<Rightarrow> 'v"
  fetchInputUtxos :: "'db \<Rightarrow> block \<Rightarrow> block \<Rightarrow> 'v \<Rightarrow> error + 'v"
  commit :: "'v \<Rightarrow> 'v"
  dbFetchBlockByNode :: "'db \<Rightarrow> blockNode \<Rightarrow> error + block"
  dbFetchSpendJournalEntry :: "'db \<Rightarrow> block \<Rightarrow> block \<Rightarrow> error + spentTxOut list"
  dbPutBlockNodes :: "(blockNode \<times> blockStatus) list \<Rightarrow> 'db \<Rightarrow> error + 'db"
  dbPutBestState :: "BestState \<Rightarrow> int \<Rightarrow> 'db \<Rightarrow> error + 'db"
  dbPutUtxoView :: "'v \<Rightarrow> 'db \<Rightarrow> error + 'db"
  dbPutSpendJournalEntry :: "hash \<Rightarrow> spentTxOut list \<Rightarrow> 'db \<Rightarrow> error + 'db"
  dbRemoveSpendJournalEntry :: "hash \<Rightarrow> 'db \<Rightarrow> error + 'db"
  WriteConnectedBestNode :: "stakeNode \<Rightarrow> hash \<Rightarrow> 'db \<Rightarrow> error + 'db"
  WriteDisconnectedBestNode :: "stakeNode \<Rightarrow> hash \<Rightarrow> nat \<Rightarrow> 'db \<Rightarrow> error + 'db"
  indexManagerConnectBlock :: "block \<Rightarrow> block \<Rightarrow> 'v \<Rightarrow> 'db \<Rightarrow> error + 'db"
  indexManagerDisconnectBlock :: "block \<Rightarrow> block \<Rightarrow> 'v \<Rightarrow> 'db \<Rightarrow> error + 'db"

text \<open>A step of a database transaction after the steps before it.\<close>

definition andThen :: "error + 'db \<Rightarrow> ('db \<Rightarrow> error + 'db) \<Rightarrow> error + 'db" where
  "andThen r f = (case r of Inl err \<Rightarrow> Inl err | Inr d \<Rightarrow> f d)"

text \<open>The three statements that make a fresh view for a best hash.\<close>

definition newView :: "('db, 'v) collaborators \<Rightarrow> hash \<Rightarrow> 'v" where
  "newView X h = SetStakeViewpointPrevValidInitial X (SetBestHash X h (NewUtxoViewpoint X))"

text \<open>
  Modelled from the spec: \<^verbatim>\<open>chainView.SetTip\<close> of chainview.go. The spec: \<open>set_tip(node)\<close>
  truncates and repopulates the array by walking ancestors from node until one is
  already contained. The view of no node is empty.
\<close>

function viewTo :: "chainView \<Rightarrow> blockNode \<Rightarrow> chainView" where
  "viewTo c n =
     (if Contains c n then take (nat (height n) + 1) c
      else (case parent n of None \<Rightarrow> [] | Some p \<Rightarrow> viewTo c p) @ [n])"
  by pat_completeness auto
termination
  by (relation "measure (\<lambda>(c, n). size n)") (auto simp: parent_size)

declare viewTo.simps [simp del]

definition SetTip :: "blockNode option \<Rightarrow> chainView \<Rightarrow> chainView" where
  "SetTip node c = (case node of None \<Rightarrow> [] | Some n \<Rightarrow> viewTo c n)"

text \<open>
  Modelled from the spec: \<^verbatim>\<open>sendNotification\<close> of notifications.go hands the notification
  to the notification sink.
\<close>

definition sendNotification :: "notification \<Rightarrow> 'db BlockChain \<Rightarrow> 'db BlockChain" where
  "sendNotification ntfn b = b\<lparr>notifications := notifications b @ [ntfn]\<rparr>"

section \<open>Counting, fetching, flushing\<close>

text \<open>
  \<^verbatim>\<open>parent.Transactions()[1:]\<close> panics on a parent with no transaction. The two loops
  add up the numbers of inputs.
\<close>

definition countSpentOutputs :: "('db, 'v) collaborators \<Rightarrow> block \<Rightarrow> block \<Rightarrow> error + nat" where
  "countSpentOutputs X blk parentBlk =
     (if headerApprovesParent X (Header blk) \<and> Transactions parentBlk = []
      then Inl (Panic ''slice bounds out of range'')
      else Inr
        ((if headerApprovesParent X (Header blk)
          then sum_list (map (\<lambda>tx. length (TxIn tx)) (tl (Transactions parentBlk)))
          else 0)
         + sum_list (map (\<lambda>stx. if DetermineTxType X stx = TxTypeSSGen
                                    \<or> DetermineTxType X stx = TxTypeSSRtx
                                 then 1 else length (TxIn stx))
             (STransactions blk))))"

definition countNumberOfTransactions :: "('db, 'v) collaborators \<Rightarrow> block \<Rightarrow> block \<Rightarrow> 64 word" where
  "countNumberOfTransactions X blk parentBlk =
     (if headerApprovesParent X (Header blk) then of_nat (length (Transactions parentBlk)) else 0)
     + of_nat (length (STransactions blk))"

definition newBestState ::
  "blockNode \<Rightarrow> 64 word \<Rightarrow> 64 word \<Rightarrow> 64 word \<Rightarrow> int \<Rightarrow> int \<Rightarrow> 32 word \<Rightarrow> int \<Rightarrow> hash list \<Rightarrow> hash list
     \<Rightarrow> 48 word \<Rightarrow> BestState"
where
  "newBestState node blockSize numTxns totalTxns medianTime totalSubsidy nextPoolSize nextStakeDiff
       nextWinners missed nextFinalState =
     \<lparr>Hash = hash node,
      PrevHash = (case parent node of None \<Rightarrow> 0 | Some p \<Rightarrow> hash p),
      Height = height node,
      Bits = bits node,
      NextPoolSize = nextPoolSize,
      NextStakeDiff = nextStakeDiff,
      BlockSize = blockSize,
      NumTxns = numTxns,
      TotalTxns = totalTxns,
      MedianTime = medianTime,
      TotalSubsidy = totalSubsidy,
      NextWinningTickets = nextWinners,
      MissedTicketsOf = missed,
      NextFinalState = nextFinalState\<rparr>"

text \<open>
  The two fetch functions take a node pointer; \<^verbatim>\<open>bestChain.Contains\<close> and the read of
  \<^verbatim>\<open>node.hash\<close> panic on nil.
\<close>

definition fetchMainChainBlockByNode ::
  "('db, 'v) collaborators \<Rightarrow> 'db BlockChain \<Rightarrow> blockNode option \<Rightarrow> error + block"
where
  "fetchMainChainBlockByNode X b node =
     (case node of
        None \<Rightarrow> Inl (Panic ''nil node'')
      | Some n \<Rightarrow>
          if \<not> Contains (bestChain b) n then Inl ErrNotInMainChain
          else case mainchainBlockCache b (hash n) of
                 Some blk \<Rightarrow> Inr blk
               | None \<Rightarrow> dbFetchBlockByNode X (db b) n)"

definition fetchBlockByNode ::
  "('db, 'v) collaborators \<Rightarrow> 'db BlockChain \<Rightarrow> blockNode \<Rightarrow> error + block"
where
  "fetchBlockByNode X b n =
     (case mainchainBlockCache b (hash n) of
        Some blk \<Rightarrow> Inr blk
      | None \<Rightarrow>
          (case map_of (orphans b) (hash n) of
             Some orphan \<Rightarrow> Inr (orphanBlk orphan)
           | None \<Rightarrow> dbFetchBlockByNode X (db b) n))"

text \<open>
  The loop of \<^verbatim>\<open>flushBlockIndex\<close> over the modified nodes, then \<^verbatim>\<open>index.flush\<close>.

  Modelled from the spec: \<^verbatim>\<open>blockIndex.flush\<close> of blockindex.go. The spec: \<open>flush()\<close>
  atomically writes every dirty node's serialized status to the store, then clears the
  dirty set; a failure leaves the dirty set intact.
\<close>

fun ticketInfoLoop ::
  "('db, 'v) collaborators \<Rightarrow> blockNode list \<Rightarrow> 'db BlockChain \<Rightarrow> error option \<times> 'db BlockChain"
where
  "ticketInfoLoop X [] b = (None, b)"
| "ticketInfoLoop X (node # rest) b =
     (case maybeFetchTicketInfo X b node of
        Inl err \<Rightarrow> (Some err, b)
      | Inr d \<Rightarrow> ticketInfoLoop X rest (b\<lparr>nodeData := (nodeData b)(node := d)\<rparr>))"

definition indexFlush :: "('db, 'v) collaborators \<Rightarrow> 'db BlockChain \<Rightarrow> error option \<times> 'db BlockChain" where
  "indexFlush X b =
     (case dbPutBlockNodes X (map (\<lambda>n. (n, NodeStatus b n)) (modified b)) (db b) of
        Inl err \<Rightarrow> (Some err, b)
      | Inr d \<Rightarrow> (None, b\<lparr>db := d, modified := []\<rparr>))"

definition flushBlockIndex :: "('db, 'v) collaborators \<Rightarrow> 'db BlockChain \<Rightarrow> error option \<times> 'db BlockChain" where
  "flushBlockIndex X b =
     (case ticketInfoLoop X (modified b) b of
        (Some err, b1) \<Rightarrow> (Some err, b1)
      | (None, b1) \<Rightarrow> indexFlush X b1)"


definition pushMainChainBlockCache :: "block \<Rightarrow> 'db BlockChain \<Rightarrow> 'db BlockChain" where
  "pushMainChainBlockCache blk b =
     (let cache = (mainchainBlockCache b)(blockHash blk \<mapsto> blk)
      in b\<lparr>mainchainBlockCache :=
             (\<lambda>h. case cache h of
                     None \<Rightarrow> None
                   | Some bl \<Rightarrow>
                       if blockHeight bl \<le> blockHeight blk - mainchainBlockCacheSize b
                       then None else Some bl)\<rparr>)"

definition dropMainChainBlockCache :: "block \<Rightarrow> 'db BlockChain \<Rightarrow> 'db BlockChain" where
  "dropMainChainBlockCache blk b =
     b\<lparr>mainchainBlockCache := (mainchainBlockCache b)(blockHash blk := None)\<rparr>"


section \<open>connectBlock and disconnectBlock\<close>

text \<open>
  A function of the tip engine returns the error of the Go function (\<open>None\<close> for nil; a
  panic is the error \<open>Panic\<close>) and the chain as it has left it. \<^verbatim>\<open>connectBlock\<close> and
  \<^verbatim>\<open>disconnectBlock\<close> also write the view they are given (\<^verbatim>\<open>view.commit()\<close>), so they
  return the view as well. The chain lock that the source releases around a
  notification is not modelled: the calls of one goroutine are modelled in sequence.

  \<open>connectBlockBody\<close> is \<^verbatim>\<open>connectBlock\<close> after its two assertions.
\<close>

definition connectBlockBody ::
  "('db, 'v) collaborators \<Rightarrow> blockNode \<Rightarrow> block \<Rightarrow> block \<Rightarrow> 'v \<Rightarrow> spentTxOut list \<Rightarrow> 'db BlockChain
     \<Rightarrow> error option \<times> 'v \<times> 'db BlockChain"
where
  "connectBlockBody X node blk parentBlk view stxos b =
     (case flushBlockIndex X b of
        (Some err, b1) \<Rightarrow> (Some err, view, b1)
      | (None, b1) \<Rightarrow>
     (case fetchStakeNode X b1 node of
        Inl err \<Rightarrow> (Some err, view, b1)
      | Inr (stakeNode, nd) \<Rightarrow>
     let b2 = b1\<lparr>nodeData := nd\<rparr>;
         curTotalTxns = TotalTxns (stateSnapshot b2);
         curTotalSubsidy = TotalSubsidy (stateSnapshot b2);
         numTxns = countNumberOfTransactions X blk parentBlk;
         subsidy = CalculateAddedSubsidy X blk parentBlk
     in
     (case calcNextRequiredStakeDifficulty X b2 node of
        Inl err \<Rightarrow> (Some err, view, b2)
      | Inr nextStakeDiff \<Rightarrow>
     (case stakeNodeOf (nodeData b2 node) of
        None \<Rightarrow> (Some (Panic ''nil stakeNode''), view, b2)
      | Some sn \<Rightarrow>
     let blockSize = (ucast (Size (Header blk)) :: 64 word);
         state = newBestState node blockSize numTxns (curTotalTxns + numTxns)
                   (CalcPastMedianTime X node) (curTotalSubsidy + subsidy)
                   (word_of_int (PoolSize sn)) nextStakeDiff
                   (Winners sn) (MissedTickets sn) (FinalState sn)
     in
     (case andThen (andThen (andThen (andThen
               (dbPutBestState X state (workSum node) (db b2))
               (dbPutUtxoView X view))
               (dbPutSpendJournalEntry X (blockHash blk) stxos))
               (WriteConnectedBestNode X stakeNode (hash node)))
               (\<lambda>d. if indexManager b2 then indexManagerConnectBlock X blk parentBlk view d
                    else Inr d) of
        Inl err \<Rightarrow> (Some err, view, b2)
      | Inr d \<Rightarrow>
     let view1 = commit X view;
         b3 = b2\<lparr>db := d, bestChain := SetTip (Some node) (bestChain b2), stateSnapshot := state\<rparr>;
         b4 = sendNotification (NTBlockConnected blk parentBlk) b3
     in
     (case (if height node \<ge> StakeEnabledHeight (chainParams b4) then
              (case calcNextRequiredStakeDifficulty X b4 node of
                 Inl err \<Rightarrow> Inl err
               | Inr nextStakeDiff2 \<Rightarrow>
                   Inr (sendNotification
                          (NTNewTickets
                             \<lparr>TicketHash = hash node, TicketHeight = height node,
                              StakeDifficulty = nextStakeDiff2, TicketsSpent = [],
                              TicketsMissed = [], TicketsNew = NewTickets sn\<rparr>)
                          (sendNotification
                             (NTSpentAndMissedTickets
                                \<lparr>TicketHash = hash node, TicketHeight = height node,
                                 StakeDifficulty = nextStakeDiff2, TicketsSpent = SpentByBlock sn,
                                 TicketsMissed = MissedByBlock sn, TicketsNew = []\<rparr>)
                             b4)))
            else Inr b4) of
        Inl err \<Rightarrow> (Some err, view1, b4)
      | Inr b5 \<Rightarrow>
     (case (if height node < LatestCheckpointHeight (chainParams b5) then
              (case Tip (bestChain b5) of
                 None \<Rightarrow> Inl (Panic ''nil tip'')
               | Some tip \<Rightarrow>
                   (case parent tip of
                      None \<Rightarrow> Inl (Panic ''nil parent'')
                    | Some p \<Rightarrow>
                        Inr (b5\<lparr>nodeData := (nodeData b5)
                               (p := (nodeData b5 p)\<lparr>stakeNodeOf := None, newTickets := None,
                                     ticketsVoted := None, ticketsRevoked := None\<rparr>)\<rparr>)))
            else Inr b5) of
        Inl err \<Rightarrow> (Some err, view1, b5)
      | Inr b6 \<Rightarrow> (None, view1, pushMainChainBlockCache blk b6))))))))"

definition connectBlock ::
  "('db, 'v) collaborators \<Rightarrow> blockNode \<Rightarrow> block \<Rightarrow> block \<Rightarrow> 'v \<Rightarrow> spentTxOut list \<Rightarrow> 'db BlockChain
     \<Rightarrow> error option \<times> 'v \<times> 'db BlockChain"
where
  "connectBlock X node blk parentBlk view stxos b =
     (let prevHash = PrevBlock (Header blk) in
      case Tip (bestChain b) of
        None \<Rightarrow> (Some (Panic ''nil tip''), view, b)
      | Some tip \<Rightarrow>
          if prevHash \<noteq> hash tip
          then (Some (Panic ''block connects to a block other than the best chain tip''), view, b)
          else
            (case countSpentOutputs X blk parentBlk of
               Inl err \<Rightarrow> (Some err, view, b)
             | Inr counted \<Rightarrow>
                 if length stxos \<noteq> counted
                 then (Some (Panic ''provided stxos differ from the counted spent utxos''), view, b)
                 else connectBlockBody X node blk parentBlk view stxos b))"

definition disconnectBlock ::
  "('db, 'v) collaborators \<Rightarrow> blockNode \<Rightarrow> block \<Rightarrow> block \<Rightarrow> 'v \<Rightarrow> 'db BlockChain
     \<Rightarrow> error option \<times> 'v \<times> 'db BlockChain"
where
  "disconnectBlock X node blk parentBlk view b =
     (case Tip (bestChain b) of
        None \<Rightarrow> (Some (Panic ''nil tip''), view, b)
      | Some tip \<Rightarrow>
     if hash node \<noteq> hash tip
     then (Some (Panic ''block is not the end of the best chain''), view, b)
     else
     (case flushBlockIndex X b of
        (Some err, b1) \<Rightarrow> (Some err, view, b1)
      | (None, b1) \<Rightarrow>
     (case fetchStakeNode X b1 node of
        Inl err \<Rightarrow> (Some err, view, b1)
      | Inr (childStakeNode, nd1) \<Rightarrow>
     let b2 = b1\<lparr>nodeData := nd1\<rparr> in
     (case parent node of
        None \<Rightarrow> (Some (Panic ''nil parent''), view, b2)
      | Some prevNode \<Rightarrow>
     (case fetchStakeNode X b2 prevNode of
        Inl err \<Rightarrow> (Some err, view, b2)
      | Inr (parentStakeNode, nd2) \<Rightarrow>
     let b3 = b2\<lparr>nodeData := nd2\<rparr>;
         curTotalTxns = TotalTxns (stateSnapshot b3);
         curTotalSubsidy = TotalSubsidy (stateSnapshot b3);
         parentBlockSize = (ucast (Size (Header parentBlk)) :: 64 word);
         numTxns = countNumberOfTransactions X blk parentBlk;
         newTotalTxns = curTotalTxns - numTxns;
         subsidy = CalculateAddedSubsidy X blk parentBlk;
         newTotalSubsidy = curTotalSubsidy - subsidy
     in
     (case stakeNodeOf (nodeData b3 prevNode) of
        None \<Rightarrow> (Some (Panic ''nil stakeNode''), view, b3)
      | Some psn \<Rightarrow>
     let state = newBestState prevNode parentBlockSize numTxns newTotalTxns
                   (CalcPastMedianTime X prevNode) newTotalSubsidy
                   (word_of_int (PoolSize psn)) (sbits node)
                   (Winners psn) (MissedTickets psn) (FinalState psn)
     in
     (case andThen (andThen (andThen (andThen
               (dbPutBestState X state (workSum node) (db b3))
               (dbPutUtxoView X view))
               (dbRemoveSpendJournalEntry X (blockHash blk)))
               (WriteDisconnectedBestNode X parentStakeNode (hash prevNode)
                  (UndoData childStakeNode)))
               (\<lambda>d. if indexManager b3 then indexManagerDisconnectBlock X blk parentBlk view d
                    else Inr d) of
        Inl err \<Rightarrow> (Some err, view, b3)
      | Inr d \<Rightarrow>
     let view1 = commit X view;
         b4 = b3\<lparr>db := d, bestChain := SetTip (parent node) (bestChain b3), stateSnapshot := state\<rparr>;
         b5 = sendNotification (NTBlockDisconnected blk parentBlk) b4
     in (None, view1, dropMainChainBlockCache blk b5))))))))"


section \<open>getReorganizeNodes\<close>

text \<open>
  A \<^verbatim>\<open>*list.List\<close> of nodes is a list; \<^verbatim>\<open>PushFront\<close> puts a node in front of it and
  \<^verbatim>\<open>PushBack\<close> behind it.

  \<open>markInvalidAncestor\<close> is the loop that sets \<^verbatim>\<open>statusInvalidAncestor\<close> on every node
  of a list, from the front.
\<close>

definition markInvalidAncestor :: "blockNode list \<Rightarrow> 'db BlockChain \<Rightarrow> 'db BlockChain" where
  "markInvalidAncestor nodes b = foldl (\<lambda>b1 dn. SetStatusFlags dn statusInvalidAncestor b1) b nodes"

text \<open>
  The loop that collects the nodes to attach, from \<open>n\<close> down to the fork point. It
  returns \<open>None\<close> for the list when it has met a known invalid node: the nodes
  collected so far are then marked and the source returns two empty lists.
\<close>

function attachWalk ::
  "blockNode option \<Rightarrow> blockNode option \<Rightarrow> blockNode list \<Rightarrow> 'db BlockChain
     \<Rightarrow> blockNode list option \<times> 'db BlockChain"
where
  "attachWalk None forkNode attachNodes b = (Some attachNodes, b)"
| "attachWalk (Some n) forkNode attachNodes b =
     (if Some n = forkNode then (Some attachNodes, b)
      else if KnownInvalid (NodeStatus b n) then (None, markInvalidAncestor attachNodes b)
      else attachWalk (parent n) forkNode (n # attachNodes) b)"
  by pat_completeness auto
termination
  by (relation "measure (\<lambda>(n, forkNode, attachNodes, b). case n of None \<Rightarrow> 0 | Some m \<Rightarrow> Suc (size m))")
     (auto simp: parent_size split: option.splits)

text \<open>The loop that collects the nodes to detach, from the tip down to the fork point.\<close>

function detachWalk :: "blockNode option \<Rightarrow> blockNode option \<Rightarrow> blockNode list \<Rightarrow> blockNode list" where
  "detachWalk None forkNode detachNodes = detachNodes"
| "detachWalk (Some n) forkNode detachNodes =
     (if Some n = forkNode then detachNodes
      else detachWalk (parent n) forkNode (detachNodes @ [n]))"
  by pat_completeness auto
termination
  by (relation "measure (\<lambda>(n, forkNode, detachNodes). case n of None \<Rightarrow> 0 | Some m \<Rightarrow> Suc (size m))")
     (auto simp: parent_size split: option.splits)

text \<open>
  The result is the pair of lists in the order of the source: the nodes to detach
  first, the nodes to attach second. \<^verbatim>\<open>NodeStatus(node.parent)\<close> reads the status of
  the parent and panics when the node has none.
\<close>

definition getReorganizeNodes ::
  "blockNode option \<Rightarrow> 'db BlockChain \<Rightarrow> error + ((blockNode list \<times> blockNode list) \<times> 'db BlockChain)"
where
  "getReorganizeNodes node b =
     (case node of
        None \<Rightarrow> Inr (([], []), b)
      | Some n \<Rightarrow>
          (case parent n of
             None \<Rightarrow> Inl (Panic ''nil parent'')
           | Some p \<Rightarrow>
               if KnownInvalid (NodeStatus b p)
               then Inr (([], []), SetStatusFlags n statusInvalidAncestor b)
               else
                 let forkNode = FindFork (bestChain b) n in
                 (case attachWalk (Some n) forkNode [] b of
                    (None, b1) \<Rightarrow> Inr (([], []), b1)
                  | (Some attachNodes, b1) \<Rightarrow>
                      Inr ((detachWalk (Tip (bestChain b1)) forkNode [], attachNodes), b1))))"

section \<open>reorganizeChain\<close>

text \<open>The read of a slice at an index panics out of range.\<close>

definition sliceAt :: "'a list \<Rightarrow> nat \<Rightarrow> error + 'a" where
  "sliceAt xs i = (if i < length xs then Inr (xs ! i) else Inl (Panic ''index out of range''))"

text \<open>
  The state of the first loop of \<^verbatim>\<open>reorganizeChain\<close>, which disconnects the blocks of
  the nodes to detach from a scratch view: the next block to detach, the blocks and the
  spent outputs loaded so far, the view, and the new best node.
\<close>

record 'v detachCheck =
  nextBlockToDetach :: "block option"
  detachBlocks :: "block list"
  detachSpentTxOuts :: "spentTxOut list list"
  checkView :: 'v
  detachBest :: "blockNode option"

fun detachCheckLoop ::
  "('db, 'v) collaborators \<Rightarrow> 'db BlockChain \<Rightarrow> blockNode list \<Rightarrow> 'v detachCheck \<Rightarrow> error + 'v detachCheck"
where
  "detachCheckLoop X b [] st = Inr st"
| "detachCheckLoop X b (n # rest) st =
     (case (case nextBlockToDetach st of
              None \<Rightarrow> fetchMainChainBlockByNode X b (Some n)
            | Some blk \<Rightarrow> Inr blk) of
        Inl err \<Rightarrow> Inl err
      | Inr blk \<Rightarrow>
     if hash n \<noteq> blockHash blk
     then Inl (Panic ''detach block node hash does not match previous parent block hash'')
     else
     (case fetchMainChainBlockByNode X b (parent n) of
        Inl err \<Rightarrow> Inl err
      | Inr parentBlk \<Rightarrow>
     (case dbFetchSpendJournalEntry X (db b) blk parentBlk of
        Inl err \<Rightarrow> Inl err
      | Inr stxos \<Rightarrow>
     (case countSpentOutputs X blk parentBlk of
        Inl err \<Rightarrow> Inl err
      | Inr counted \<Rightarrow>
     if length stxos \<noteq> counted
     then Inl (Panic ''retrieved stxos differ from the counted spent utxos'')
     else
     (case disconnectTransactions X b (checkView st) blk parentBlk stxos of
        Inl err \<Rightarrow> Inl err
      | Inr view1 \<Rightarrow>
          detachCheckLoop X b rest
            \<lparr>nextBlockToDetach = Some parentBlk,
             detachBlocks = detachBlocks st @ [blk],
             detachSpentTxOuts = detachSpentTxOuts st @ [stxos],
             checkView = view1,
             detachBest = parent n\<rparr>)))))"

text \<open>
  The second loop, which checks the blocks of the nodes to attach against the scratch
  view. Its state is the list of the blocks loaded so far (its length is the index
  \<open>i\<close> of the loop), the view and the new best node; the loop also writes the status
  of nodes. \<open>forkBlock\<close> is nil when it has not been fetched.

  \<open>attachCheckBody\<close> is the body of the loop for the node \<open>n\<close>, \<open>rest\<close> being the
  nodes after it in the list: it returns the error with which the function returns, or
  no error when the loop goes on.
\<close>

record 'v attachCheck =
  attachBlocks :: "block list"
  attachView :: 'v
  attachBest :: "blockNode option"

definition attachCheckBody ::
  "('db, 'v) collaborators \<Rightarrow> block option \<Rightarrow> blockNode \<Rightarrow> blockNode list \<Rightarrow> 'v attachCheck
     \<Rightarrow> 'db BlockChain \<Rightarrow> error option \<times> 'v attachCheck \<times> 'db BlockChain"
where
  "attachCheckBody X forkBlock n rest st b =
     (case fetchBlockByNode X b n of
        Inl err \<Rightarrow> (Some err, st, b)
      | Inr blk \<Rightarrow>
     (case parent n of
        None \<Rightarrow> (Some (Panic ''nil parent''), st, b)
      | Some p \<Rightarrow>
     (case (if length (attachBlocks st) > 0
            then Some (last (attachBlocks st)) else forkBlock) of
        None \<Rightarrow> (Some (Panic ''nil parent block''), st, b)
      | Some parentBlk \<Rightarrow>
     if hash p \<noteq> blockHash parentBlk
     then (Some (Panic ''attach block node parent hash does not match previous parent block hash''), st, b)
     else
     let st1 = st\<lparr>attachBlocks := attachBlocks st @ [blk]\<rparr> in
     if KnownValid (NodeStatus b n) then
       (case connectTransactions X b (attachView st1) blk parentBlk False of
          Inl err \<Rightarrow> (Some err, st1, b)
        | Inr (view1, stxos) \<Rightarrow> (None, st1\<lparr>attachView := view1, attachBest := Some n\<rparr>, b))
     else
       (case checkConnectBlock X b n blk parentBlk (attachView st1) False of
          Inl err \<Rightarrow>
            (Some err, st1,
             if isRuleError err
             then markInvalidAncestor rest (SetStatusFlags n statusValidateFailed b)
             else b)
        | Inr (view1, stxos) \<Rightarrow>
            (None, st1\<lparr>attachView := view1, attachBest := Some n\<rparr>,
             SetStatusFlags n statusValid b)))))"

fun attachCheckLoop ::
  "('db, 'v) collaborators \<Rightarrow> block option \<Rightarrow> blockNode list \<Rightarrow> 'v attachCheck \<Rightarrow> 'db BlockChain
     \<Rightarrow> error option \<times> 'v attachCheck \<times> 'db BlockChain"
where
  "attachCheckLoop X forkBlock [] st b = (None, st, b)"
| "attachCheckLoop X forkBlock (n # rest) st b =
     (case attachCheckBody X forkBlock n rest st b of
        (Some err, st1, b1) \<Rightarrow> (Some err, st1, b1)
      | (None, st1, b1) \<Rightarrow> attachCheckLoop X forkBlock rest st1 b1)"

text \<open>
  The third loop, which disconnects the blocks from the main chain; \<open>i\<close> is the index
  of the node.
\<close>

fun detachLoop ::
  "('db, 'v) collaborators \<Rightarrow> 'v detachCheck \<Rightarrow> nat \<Rightarrow> blockNode list \<Rightarrow> 'v \<Rightarrow> 'db BlockChain
     \<Rightarrow> error option \<times> 'v \<times> 'db BlockChain"
where
  "detachLoop X dc i [] view b = (None, view, b)"
| "detachLoop X dc i (n # rest) view b =
     (case sliceAt (detachBlocks dc) i of
        Inl err \<Rightarrow> (Some err, view, b)
      | Inr blk \<Rightarrow>
     (case (if int i < int (length (detachBlocks dc)) - 1
            then (case sliceAt (detachBlocks dc) (i + 1) of
                    Inl err \<Rightarrow> Inl err
                  | Inr pb \<Rightarrow> Inr (Some pb))
            else Inr (nextBlockToDetach dc)) of
        Inl err \<Rightarrow> (Some err, view, b)
      | Inr parentBlock \<Rightarrow>
     (case parent n of
        None \<Rightarrow> (Some (Panic ''nil parent''), view, b)
      | Some p \<Rightarrow>
     (case parentBlock of
        None \<Rightarrow> (Some (Panic ''nil parent block''), view, b)
      | Some parentBlk \<Rightarrow>
     if hash p \<noteq> blockHash parentBlk
     then (Some (Panic ''detach block node parent hash does not match previous parent block hash''), view, b)
     else
     (case fetchInputUtxos X (db b) blk parentBlk view of
        Inl err \<Rightarrow> (Some err, view, b)
      | Inr view1 \<Rightarrow>
     (case sliceAt (detachSpentTxOuts dc) i of
        Inl err \<Rightarrow> (Some err, view1, b)
      | Inr stxos \<Rightarrow>
     (case disconnectTransactions X b view1 blk parentBlk stxos of
        Inl err \<Rightarrow> (Some err, view1, b)
      | Inr view2 \<Rightarrow>
     (case disconnectBlock X n blk parentBlk view2 b of
        (Some err, view3, b1) \<Rightarrow> (Some err, view3, b1)
      | (None, view3, b1) \<Rightarrow> detachLoop X dc (i + 1) rest view3 b1))))))))"

text \<open>The fourth loop, which connects the blocks of the new best chain.\<close>

fun attachLoop ::
  "('db, 'v) collaborators \<Rightarrow> block option \<Rightarrow> block list \<Rightarrow> nat \<Rightarrow> blockNode list \<Rightarrow> 'v \<Rightarrow> 'db BlockChain
     \<Rightarrow> error option \<times> 'v \<times> 'db BlockChain"
where
  "attachLoop X forkBlock blocks i [] view b = (None, view, b)"
| "attachLoop X forkBlock blocks i (n # rest) view b =
     (case sliceAt blocks i of
        Inl err \<Rightarrow> (Some err, view, b)
      | Inr blk \<Rightarrow>
     (case (if i > 0
            then (case sliceAt blocks (i - 1) of
                    Inl err \<Rightarrow> Inl err
                  | Inr pb \<Rightarrow> Inr (Some pb))
            else Inr forkBlock) of
        Inl err \<Rightarrow> (Some err, view, b)
      | Inr parentBlock \<Rightarrow>
     (case parent n of
        None \<Rightarrow> (Some (Panic ''nil parent''), view, b)
      | Some p \<Rightarrow>
     (case parentBlock of
        None \<Rightarrow> (Some (Panic ''nil parent block''), view, b)
      | Some parentBlk \<Rightarrow>
     if hash p \<noteq> blockHash parentBlk
     then (Some (Panic ''attach block node parent hash does not match previous parent block hash''), view, b)
     else
     (case countSpentOutputs X blk parentBlk of
        Inl err \<Rightarrow> (Some err, view, b)
      | Inr counted \<Rightarrow>
     (case connectTransactions X b view blk parentBlk True of
        Inl err \<Rightarrow> (Some err, view, b)
      | Inr (view1, stxos) \<Rightarrow>
     (case connectBlock X n blk parentBlk view1 stxos b of
        (Some err, view2, b1) \<Rightarrow> (Some err, view2, b1)
      | (None, view2, b1) \<Rightarrow> attachLoop X forkBlock blocks (i + 1) rest view2 b1)))))))"

text \<open>
  The check phase of \<^verbatim>\<open>reorganizeChain\<close>: the first two loops and the fetch of the fork
  block between them. It returns the error and the chain, or the chain with what the
  commit phase needs.
\<close>

definition reorgCheck ::
  "('db, 'v) collaborators \<Rightarrow> blockNode \<Rightarrow> blockNode list \<Rightarrow> blockNode list \<Rightarrow> 'db BlockChain
     \<Rightarrow> (error \<times> 'db BlockChain) + ('v detachCheck \<times> block option \<times> 'v attachCheck \<times> 'db BlockChain)"
where
  "reorgCheck X tip detachNodes attachNodes b =
     (case detachCheckLoop X b detachNodes
             \<lparr>nextBlockToDetach = None, detachBlocks = [], detachSpentTxOuts = [],
              checkView = newView X (hash tip), detachBest = Some tip\<rparr> of
        Inl err \<Rightarrow> Inl (err, b)
      | Inr dc \<Rightarrow>
     (case (if length attachNodes > 0
            then (case fetchMainChainBlockByNode X b (detachBest dc) of
                    Inl err \<Rightarrow> Inl err
                  | Inr fb \<Rightarrow> Inr (Some fb))
            else Inr None) of
        Inl err \<Rightarrow> Inl (err, b)
      | Inr forkBlock \<Rightarrow>
     (case attachCheckLoop X forkBlock attachNodes
             \<lparr>attachBlocks = [], attachView = checkView dc, attachBest = detachBest dc\<rparr> b of
        (Some err, ac, b1) \<Rightarrow> Inl (err, b1)
      | (None, ac, b1) \<Rightarrow> Inr (dc, forkBlock, ac, b1))))"

text \<open>
  The commit phase: the two notifications, the last two loops on a fresh view, and the
  deferred notification, which is sent however the loops end.
\<close>

definition reorgCommit ::
  "('db, 'v) collaborators \<Rightarrow> blockNode \<Rightarrow> blockNode list \<Rightarrow> blockNode list
     \<Rightarrow> 'v detachCheck \<Rightarrow> block option \<Rightarrow> 'v attachCheck \<Rightarrow> 'db BlockChain
     \<Rightarrow> error option \<times> 'db BlockChain"
where
  "reorgCommit X oldBest detachNodes attachNodes dc forkBlock ac b =
     (case attachBest ac of
        None \<Rightarrow> (Some (Panic ''nil newBest''), b)
      | Some newBest \<Rightarrow>
     let b1 = sendNotification
                (NTReorganization \<lparr>OldHash = hash oldBest, OldHeight = height oldBest,
                                   NewHash = hash newBest, NewHeight = height newBest\<rparr>) b;
         b2 = sendNotification NTChainReorgStarted b1
     in
     (case detachLoop X dc 0 detachNodes (newView X (hash oldBest)) b2 of
        (Some err, view1, b3) \<Rightarrow> (Some err, sendNotification NTChainReorgDone b3)
      | (None, view1, b3) \<Rightarrow>
     (case attachLoop X forkBlock (attachBlocks ac) 0 attachNodes view1 b3 of
        (err, view2, b4) \<Rightarrow> (err, sendNotification NTChainReorgDone b4))))"

definition reorganizeChain ::
  "('db, 'v) collaborators \<Rightarrow> blockNode list \<Rightarrow> blockNode list \<Rightarrow> 'db BlockChain
     \<Rightarrow> error option \<times> 'db BlockChain"
where
  "reorganizeChain X detachNodes attachNodes b =
     (if length detachNodes = 0 \<and> length attachNodes = 0 then (None, b)
      else
      (case Tip (bestChain b) of
         None \<Rightarrow> (Some (Panic ''nil tip''), b)
       | Some tip \<Rightarrow>
      if length detachNodes \<noteq> 0 \<and> hash (hd detachNodes) \<noteq> hash tip
      then (Some (Panic ''reorganize nodes to detach are not for the current best chain''), b)
      else
      (case (if length attachNodes \<noteq> 0 \<and> length detachNodes \<noteq> 0
             then (case (parent (hd attachNodes), parent (last detachNodes)) of
                     (Some ap, Some dp) \<Rightarrow>
                       if hash ap \<noteq> hash dp
                       then Some (Panic ''reorganize nodes do not have the same fork point'')
                       else None
                   | _ \<Rightarrow> Some (Panic ''nil parent''))
             else None) of
         Some err \<Rightarrow> (Some err, b)
       | None \<Rightarrow>
      (case reorgCheck X tip detachNodes attachNodes b of
         Inl (err, b1) \<Rightarrow> (Some err, b1)
       | Inr (dc, forkBlock, ac, b1) \<Rightarrow>
           reorgCommit X tip detachNodes attachNodes dc forkBlock ac b1))))"


section \<open>forceHeadReorganization\<close>



section \<open>Example collaborators\<close>

text \<open>
  Collaborators for the scenarios. The database is the list of the records written to
  it, the latest last; a view is the number of blocks connected to it or disconnected
  from it. The block of a node has one transaction, with no input, and approves its
  parent; the validator rejects the blocks whose hash is in \<open>bad\<close>.
\<close>

definition blockOf :: "blockNode \<Rightarrow> block" where
  "blockOf n =
     \<lparr>blockHash = hash n, blockHeight = height n,
      Header = \<lparr>PrevBlock = (case parent n of None \<Rightarrow> 0 | Some p \<Rightarrow> hash p),
                VoteBits = 1, Size = 100\<rparr>,
      Transactions = [\<lparr>TxIn = []\<rparr>], STransactions = []\<rparr>"

definition collaboratorsOf :: "hash list \<Rightarrow> (string list, nat) collaborators" where
  "collaboratorsOf bad =
     \<lparr>headerApprovesParent = (\<lambda>h. VoteBits h = 1),
      DetermineTxType = (\<lambda>tx. TxTypeRegular),
      CalculateAddedSubsidy = (\<lambda>blk parentBlk. 0),
      CalcPastMedianTime = (\<lambda>n. 0),
      calcNextRequiredStakeDifficulty = (\<lambda>b n. Inr 0),
      fetchStakeNode = (\<lambda>b n. Inr (someStake, (nodeData b)(n := (nodeData b n)\<lparr>stakeNodeOf := Some someStake\<rparr>))),
      maybeFetchTicketInfo = (\<lambda>b n. Inr (nodeData b n)),
      checkBlockSanity = (\<lambda>blk params. None),
      checkBlockContext = (\<lambda>b blk p. None),
      checkConnectBlock = (\<lambda>b n blk parentBlk view wanted.
         if blockHash blk \<in> set bad then Inl (RuleError (ErrOtherRule 1)) else Inr (view + 1, [])),
      connectTransactions = (\<lambda>b view blk parentBlk wanted. Inr (view + 1, [])),
      disconnectTransactions = (\<lambda>b view blk parentBlk stxos. Inr (view + 1)),
      NewUtxoViewpoint = 0,
      SetBestHash = (\<lambda>h view. view),
      SetStakeViewpointPrevValidInitial = (\<lambda>view. view),
      fetchInputUtxos = (\<lambda>d blk parentBlk view. Inr view),
      commit = (\<lambda>view. view),
      dbFetchBlockByNode = (\<lambda>d n. Inr (blockOf n)),
      dbFetchSpendJournalEntry = (\<lambda>d blk parentBlk. Inr []),
      dbPutBlockNodes = (\<lambda>nodes d. Inr (d @ [''block index''])),
      dbPutBestState = (\<lambda>state work d. Inr (d @ [''best state''])),
      dbPutUtxoView = (\<lambda>view d. Inr (d @ [''utxo''])),
      dbPutSpendJournalEntry = (\<lambda>h stxos d. Inr (d @ [''spend journal''])),
      dbRemoveSpendJournalEntry = (\<lambda>h d. Inr (d @ [''spend journal''])),
      WriteConnectedBestNode = (\<lambda>sn h d. Inr (d @ [''stake''])),
      WriteDisconnectedBestNode = (\<lambda>sn h undo d. Inr (d @ [''stake''])),
      indexManagerConnectBlock = (\<lambda>blk parentBlk view d. Inr d),
      indexManagerDisconnectBlock = (\<lambda>blk parentBlk view d. Inr d)\<rparr>"

definition nodeB4 :: blockNode where
  "nodeB4 = BlockNode (Some nodeB3) 1004 4 50 0 0"

definition chain3 :: "string list BlockChain" where
  "chain3 = chainOf [] [nodeG, nodeB1, nodeB2, nodeB3] [nodeB2a, nodeB3a]"

section \<open>The assertions of connectBlock\<close>

text \<open>
  Claim C8. On a chain with a tip, \<open>connectBlock\<close> panics, leaving the chain as it
  is, when the previous-block hash of the header of the block differs from the hash of
  the tip, and when the length of \<open>stxos\<close> differs from
  \<open>countSpentOutputs block parent\<close>; when both preconditions hold, neither panic
  branch is taken and \<open>connectBlock\<close> is the rest of its body.
\<close>

theorem connectBlock_assertions:
  assumes tip: "Tip (bestChain b) = Some tip"
  shows "(PrevBlock (Header blk) \<noteq> hash tip \<longrightarrow>
            connectBlock X node blk parentBlk view stxos b =
              (Some (Panic ''block connects to a block other than the best chain tip''), view, b))
       \<and> (\<forall>counted. PrevBlock (Header blk) = hash tip
             \<and> countSpentOutputs X blk parentBlk = Inr counted \<and> length stxos \<noteq> counted \<longrightarrow>
            connectBlock X node blk parentBlk view stxos b =
              (Some (Panic ''provided stxos differ from the counted spent utxos''), view, b))
       \<and> (PrevBlock (Header blk) = hash tip
             \<and> countSpentOutputs X blk parentBlk = Inr (length stxos) \<longrightarrow>
            connectBlock X node blk parentBlk view stxos b =
              connectBlockBody X node blk parentBlk view stxos b)"
  using tip by (simp add: connectBlock_def)

lemma chain3_tip: "Tip (bestChain chain3) = Some nodeB3"
  by (simp add: chain3_def chainOf_def Tip_def)

lemma count_B4: "countSpentOutputs (collaboratorsOf []) (blockOf nodeB4) (blockOf nodeB3) = Inr 0"
  by (simp add: countSpentOutputs_def collaboratorsOf_def blockOf_def)

theorem connectBlock_assertions_witness:
  "connectBlock (collaboratorsOf []) nodeB4 (blockOf nodeB4) (blockOf nodeB3) 0 [] chain3
     = connectBlockBody (collaboratorsOf []) nodeB4 (blockOf nodeB4) (blockOf nodeB3) 0 [] chain3
   \<and> connectBlock (collaboratorsOf []) nodeB4 (blockOf nodeB4) (blockOf nodeB3) 0 [7] chain3
     = (Some (Panic ''provided stxos differ from the counted spent utxos''), 0, chain3)
   \<and> connectBlock (collaboratorsOf []) nodeB3a (blockOf nodeB3a) (blockOf nodeB2a) 0 [] chain3
     = (Some (Panic ''block connects to a block other than the best chain tip''), 0, chain3)"
proof -
  have p4: "PrevBlock (Header (blockOf nodeB4)) = hash nodeB3"
    by (simp add: blockOf_def nodeB4_def)
  have p3a: "PrevBlock (Header (blockOf nodeB3a)) \<noteq> hash nodeB3"
    by (simp add: blockOf_def scenario_nodes)
  from connectBlock_assertions [where b = chain3 and tip = nodeB3 and blk = "blockOf nodeB4"
      and X = "collaboratorsOf []" and parentBlk = "blockOf nodeB3" and stxos = "[]" and node = nodeB4
      and view = 0, OF chain3_tip]
    p4 count_B4
  have a: "connectBlock (collaboratorsOf []) nodeB4 (blockOf nodeB4) (blockOf nodeB3) 0 [] chain3
     = connectBlockBody (collaboratorsOf []) nodeB4 (blockOf nodeB4) (blockOf nodeB3) 0 [] chain3"
    by simp
  from connectBlock_assertions [where b = chain3 and tip = nodeB3 and blk = "blockOf nodeB4"
      and X = "collaboratorsOf []" and parentBlk = "blockOf nodeB3" and stxos = "[7]" and node = nodeB4
      and view = 0, OF chain3_tip]
    p4 count_B4
  have b: "connectBlock (collaboratorsOf []) nodeB4 (blockOf nodeB4) (blockOf nodeB3) 0 [7] chain3
     = (Some (Panic ''provided stxos differ from the counted spent utxos''), 0, chain3)"
    by simp
  from connectBlock_assertions [where b = chain3 and tip = nodeB3 and blk = "blockOf nodeB3a"
      and X = "collaboratorsOf []" and parentBlk = "blockOf nodeB2a" and stxos = "[]" and node = nodeB3a
      and view = 0, OF chain3_tip]
    p3a
  have c: "connectBlock (collaboratorsOf []) nodeB3a (blockOf nodeB3a) (blockOf nodeB2a) 0 [] chain3
     = (Some (Panic ''block connects to a block other than the best chain tip''), 0, chain3)"
    by simp
  from a b c show ?thesis by simp
qed

section \<open>getReorganizeNodes and a known invalid ancestor\<close>

text \<open>
  The path from a node down to the fork point: the node, its parent, and so on, up to
  and excluding \<open>forkNode\<close>.
\<close>

function pathToFork :: "blockNode option \<Rightarrow> blockNode \<Rightarrow> blockNode list" where
  "pathToFork forkNode n =
     (if Some n = forkNode then []
      else n # (case parent n of None \<Rightarrow> [] | Some p \<Rightarrow> pathToFork forkNode p))"
  by pat_completeness auto
termination
  by (relation "measure (\<lambda>(forkNode, n). size n)") (auto simp: parent_size)

declare pathToFork.simps [simp del]

lemma NodeStatus_SetStatusFlags:
  "NodeStatus (SetStatusFlags n f b) d = (if d = n then insert f (NodeStatus b d) else NodeStatus b d)"
  by (simp add: NodeStatus_def SetStatusFlags_def)

lemma bestChain_SetStatusFlags [simp]: "bestChain (SetStatusFlags n f b) = bestChain b"
  by (simp add: SetStatusFlags_def)

lemma NodeStatus_markInvalidAncestor:
  "NodeStatus (markInvalidAncestor ns b) d
     = (if d \<in> set ns then insert statusInvalidAncestor (NodeStatus b d) else NodeStatus b d)"
  unfolding markInvalidAncestor_def
  by (induction ns arbitrary: b) (auto simp: NodeStatus_SetStatusFlags)

lemma bestChain_markInvalidAncestor [simp]: "bestChain (markInvalidAncestor ns b) = bestChain b"
  unfolding markInvalidAncestor_def
  by (induction ns arbitrary: b) auto

lemma attachWalk_invalid:
  "\<exists>x\<in>set (pathToFork forkNode n). KnownInvalid (NodeStatus b x) \<Longrightarrow>
   attachWalk (Some n) forkNode acc b
     = (None, markInvalidAncestor
                (rev (takeWhile (\<lambda>x. \<not> KnownInvalid (NodeStatus b x)) (pathToFork forkNode n)) @ acc) b)"
proof (induction forkNode n arbitrary: acc rule: pathToFork.induct)
  case (1 forkNode n)
  show ?case
  proof (cases "Some n = forkNode")
    case True
    with "1.prems" show ?thesis by (simp add: pathToFork.simps [of forkNode n])
  next
    case nf: False
    show ?thesis
    proof (cases "KnownInvalid (NodeStatus b n)")
      case True
      with nf show ?thesis by (simp add: pathToFork.simps [of forkNode n])
    next
      case ok: False
      show ?thesis
      proof (cases "parent n")
        case None
        with nf ok "1.prems" show ?thesis by (simp add: pathToFork.simps [of forkNode n])
      next
        case (Some p)
        with nf ok "1.prems" have ex: "\<exists>x\<in>set (pathToFork forkNode p). KnownInvalid (NodeStatus b x)"
          by (simp add: pathToFork.simps [of forkNode n])
        have "attachWalk (Some n) forkNode acc b = attachWalk (Some p) forkNode (n # acc) b"
          using nf ok Some by simp
        also have "\<dots> = (None, markInvalidAncestor
            (rev (takeWhile (\<lambda>x. \<not> KnownInvalid (NodeStatus b x)) (pathToFork forkNode p)) @ n # acc) b)"
          using nf Some ex by (rule "1.IH")
        finally show ?thesis using nf ok Some by (simp add: pathToFork.simps [of forkNode n])
      qed
    qed
  qed
qed

text \<open>
  Claim C7. For every node with a fork point on the best chain, if some node on the
  path from the node down to, and excluding, the fork point is known invalid, then
  \<open>getReorganizeNodes\<close> returns an empty detach list and an empty attach list, and
  every node of the path before the first known invalid one (the descendants of the
  invalid node that the walk has collected) has \<open>statusInvalidAncestor\<close> set on
  return; the best chain is unchanged.
\<close>

theorem getReorganizeNodes_known_invalid:
  assumes fork: "FindFork (bestChain b) node = Some fork"
    and bad: "bad \<in> set (pathToFork (Some fork) node)"
    and invalid: "KnownInvalid (NodeStatus b bad)"
  shows "\<exists>b'. getReorganizeNodes (Some node) b = Inr (([], []), b')
           \<and> (\<forall>d\<in>set (takeWhile (\<lambda>x. \<not> KnownInvalid (NodeStatus b x)) (pathToFork (Some fork) node)).
                 statusInvalidAncestor \<in> NodeStatus b' d)
           \<and> bestChain b' = bestChain b"
proof -
  let ?path = "pathToFork (Some fork) node"
  let ?ok = "\<lambda>x. \<not> KnownInvalid (NodeStatus b x)"
  from bad have nf: "Some node \<noteq> Some fork"
    by (auto simp: pathToFork.simps [of "Some fork" node] split: if_splits)
  with fork have notin: "\<not> Contains (bestChain b) node"
    by (auto simp: FindFork.simps [of "bestChain b" node] split: if_splits)
  with fork obtain p where p: "parent node = Some p"
    by (auto simp: FindFork.simps [of "bestChain b" node] split: option.splits)
  have path: "?path = node # pathToFork (Some fork) p"
    using nf p by (simp add: pathToFork.simps [of "Some fork" node])
  show ?thesis
  proof (cases "KnownInvalid (NodeStatus b p)")
    case True
    have res: "getReorganizeNodes (Some node) b = Inr (([], []), SetStatusFlags node statusInvalidAncestor b)"
      using p True by (simp add: getReorganizeNodes_def)
    have sub: "set (takeWhile ?ok ?path) \<subseteq> {node}"
    proof (cases "Some p = Some fork")
      case True
      then have "pathToFork (Some fork) p = []" by (simp add: pathToFork.simps [of "Some fork" fork])
      with path show ?thesis by auto
    next
      case False
      then have "pathToFork (Some fork) p = p # (case parent p of None \<Rightarrow> [] | Some q \<Rightarrow> pathToFork (Some fork) q)"
        by (simp add: pathToFork.simps [of "Some fork" p])
      with path \<open>KnownInvalid (NodeStatus b p)\<close> show ?thesis by auto
    qed
    have "\<forall>d\<in>set (takeWhile ?ok ?path).
        statusInvalidAncestor \<in> NodeStatus (SetStatusFlags node statusInvalidAncestor b) d"
      using sub by (auto simp: NodeStatus_SetStatusFlags)
    with res show ?thesis by simp
  next
    case False
    from bad invalid have ex: "\<exists>x\<in>set ?path. KnownInvalid (NodeStatus b x)" by blast
    let ?b' = "markInvalidAncestor (rev (takeWhile ?ok ?path) @ []) b"
    have walk: "attachWalk (Some node) (Some fork) [] b = (None, ?b')"
      using ex by (rule attachWalk_invalid)
    have res: "getReorganizeNodes (Some node) b = Inr (([], []), ?b')"
      using p False fork walk by (simp add: getReorganizeNodes_def)
    have "\<forall>d\<in>set (takeWhile ?ok ?path). statusInvalidAncestor \<in> NodeStatus ?b' d"
      by (simp add: NodeStatus_markInvalidAncestor)
    with res show ?thesis by simp
  qed
qed


text \<open>
  The chain of scenario 3 with one more block B4a on top of B3a, B2a having failed
  validation.
\<close>

definition nodeB4a :: blockNode where
  "nodeB4a = BlockNode (Some nodeB3a) 2004 4 51 0 0"

definition failedChain :: "unit BlockChain" where
  "failedChain =
     (let b = chainOf () [nodeG, nodeB1, nodeB2, nodeB3] [nodeB2a, nodeB3a, nodeB4a]
      in b\<lparr>nodeData := (nodeData b)(nodeB2a := dataOf {statusDataStored, statusValidateFailed})\<rparr>)"

lemma failedChain_bestChain: "bestChain failedChain = [nodeG, nodeB1, nodeB2, nodeB3]"
  by (simp add: failedChain_def chainOf_def Let_def)

lemma failedChain_status:
  "NodeStatus failedChain nodeB2a = {statusDataStored, statusValidateFailed}"
  "NodeStatus failedChain nodeB3a = {statusDataStored}"
  "NodeStatus failedChain nodeB4a = {statusDataStored}"
  by (simp_all add: failedChain_def chainOf_def Let_def NodeStatus_def dataOf_def
      scenario_nodes nodeB4a_def)

lemma failedChain_fork: "FindFork (bestChain failedChain) nodeB4a = Some nodeB1"
  by (simp add: failedChain_bestChain FindFork.simps Contains_def NodeByHeight_def
      scenario_nodes nodeB4a_def)

lemma failedChain_path: "pathToFork (Some nodeB1) nodeB4a = [nodeB4a, nodeB3a, nodeB2a]"
  by (simp add: pathToFork.simps scenario_nodes nodeB4a_def)

theorem getReorganizeNodes_known_invalid_witness:
  "\<exists>b'. getReorganizeNodes (Some nodeB4a) failedChain = Inr (([], []), b')
        \<and> statusInvalidAncestor \<in> NodeStatus b' nodeB4a
        \<and> statusInvalidAncestor \<in> NodeStatus b' nodeB3a"
proof -
  have bad: "nodeB2a \<in> set (pathToFork (Some nodeB1) nodeB4a)"
    by (simp add: failedChain_path)
  have invalid: "KnownInvalid (NodeStatus failedChain nodeB2a)"
    by (simp add: failedChain_status KnownInvalid_def)
  have tw: "takeWhile (\<lambda>x. \<not> KnownInvalid (NodeStatus failedChain x)) [nodeB4a, nodeB3a, nodeB2a]
      = [nodeB4a, nodeB3a]"
    by (simp add: failedChain_status KnownInvalid_def)
  from getReorganizeNodes_known_invalid [OF failedChain_fork bad invalid]
  show ?thesis unfolding failedChain_path tw by auto
qed

section \<open>The lists of a forced head reorganization\<close>












section \<open>A rule violation in the check phase of reorganizeChain\<close>

lemma frame_SetStatusFlags [simp]:
  "stateSnapshot (SetStatusFlags n f b) = stateSnapshot b"
  "db (SetStatusFlags n f b) = db b"
  "notifications (SetStatusFlags n f b) = notifications b"
  by (simp_all add: SetStatusFlags_def)

lemma frame_markInvalidAncestor [simp]:
  "stateSnapshot (markInvalidAncestor ns b) = stateSnapshot b"
  "db (markInvalidAncestor ns b) = db b"
  "notifications (markInvalidAncestor ns b) = notifications b"
  unfolding markInvalidAncestor_def
  by (induction ns arbitrary: b) auto

text \<open>
  What the check phase must leave as it is: the best chain, the best-state snapshot, the
  database and the notifications delivered.
\<close>

definition sameDurable :: "'db BlockChain \<Rightarrow> 'db BlockChain \<Rightarrow> bool" where
  "sameDurable b b' =
     (bestChain b' = bestChain b \<and> stateSnapshot b' = stateSnapshot b
      \<and> db b' = db b \<and> notifications b' = notifications b)"

lemma attachCheckBody_frame:
  "attachCheckBody X forkBlock n rest st b = (r, st', b') \<Longrightarrow> sameDurable b b'"
  unfolding attachCheckBody_def Let_def sameDurable_def
  by (auto split: sum.splits option.splits if_splits prod.splits)

lemma attachCheckLoop_frame:
  "attachCheckLoop X forkBlock nodes st b = (r, st', b') \<Longrightarrow> sameDurable b b'"
proof (induction nodes arbitrary: st b)
  case Nil
  then show ?case by (simp add: sameDurable_def)
next
  case (Cons n rest)
  obtain r1 st1 b1 where body: "attachCheckBody X forkBlock n rest st b = (r1, st1, b1)"
    by (cases "attachCheckBody X forkBlock n rest st b") auto
  then have f1: "sameDurable b b1" by (rule attachCheckBody_frame)
  show ?case
  proof (cases r1)
    case None
    with Cons.prems body have "attachCheckLoop X forkBlock rest st1 b1 = (r, st', b')" by simp
    then have "sameDurable b1 b'" by (rule Cons.IH)
    with f1 show ?thesis by (simp add: sameDurable_def)
  next
    case (Some err)
    with Cons.prems body have "b' = b1" by simp
    with f1 show ?thesis by simp
  qed
qed

lemma attachCheckBody_rest:
  "attachCheckBody X forkBlock n rest st b = (None, st', b') \<Longrightarrow>
   attachCheckBody X forkBlock n rest' st b = (None, st', b')"
  unfolding attachCheckBody_def Let_def
  by (auto split: sum.splits option.splits if_splits prod.splits)

lemma attachCheckLoop_prefix:
  "attachCheckLoop X forkBlock pre st b = (None, st1, b1) \<Longrightarrow>
   attachCheckLoop X forkBlock (pre @ rest) st b = attachCheckLoop X forkBlock rest st1 b1"
proof (induction pre arbitrary: st b)
  case Nil
  then show ?case by simp
next
  case (Cons m pre)
  obtain r2 st2 b2 where body: "attachCheckBody X forkBlock m pre st b = (r2, st2, b2)"
    by (cases "attachCheckBody X forkBlock m pre st b") auto
  with Cons.prems have r2: "r2 = None" by (cases r2) auto
  with Cons.prems body have loop: "attachCheckLoop X forkBlock pre st2 b2 = (None, st1, b1)"
    by simp
  from body r2 have "attachCheckBody X forkBlock m (pre @ rest) st b = (None, st2, b2)"
    by (auto intro: attachCheckBody_rest)
  then have "attachCheckLoop X forkBlock ((m # pre) @ rest) st b
      = attachCheckLoop X forkBlock (pre @ rest) st2 b2"
    by simp
  also have "\<dots> = attachCheckLoop X forkBlock rest st1 b1"
    using loop by (rule Cons.IH)
  finally show ?case .
qed

lemma attachCheckBody_rule_error:
  assumes blk: "fetchBlockByNode X b n = Inr blk"
    and par: "parent n = Some p"
    and pb: "parentBlk = (if attachBlocks st = [] then fb else last (attachBlocks st))"
    and hp: "hash p = blockHash parentBlk"
    and nv: "\<not> KnownValid (NodeStatus b n)"
    and fails: "checkConnectBlock X b n blk parentBlk (attachView st) False = Inl (RuleError code)"
  shows "attachCheckBody X (Some fb) n rest st b =
     (Some (RuleError code), st\<lparr>attachBlocks := attachBlocks st @ [blk]\<rparr>,
      markInvalidAncestor rest (SetStatusFlags n statusValidateFailed b))"
  using assms by (cases "attachBlocks st = []") (simp_all add: attachCheckBody_def Let_def)

text \<open>
  Claim C2. Take a reorganization whose lists pass the two sanity checks of
  \<open>reorganizeChain\<close>, whose attach list is \<open>pre @ n # post\<close>, and in which the
  check phase goes as follows: the loop over the detach nodes ends without error, the
  fork block is fetched, the loop over the attach nodes \<open>pre\<close> ends without error, and
  for the node \<open>n\<close>, not known valid, \<open>checkConnectBlock\<close> returns a \<open>RuleError\<close>.
  Then \<open>reorganizeChain\<close> returns that error, and in the chain it leaves the best
  chain (so its tip) and the best-state snapshot are unchanged, the database is
  unchanged (nothing is written), no notification has been sent, the status of \<open>n\<close>
  has \<open>statusValidateFailed\<close>, and the status of every attach node after \<open>n\<close> has
  \<open>statusInvalidAncestor\<close>: neither \<open>disconnectBlock\<close> nor \<open>connectBlock\<close> has run.
\<close>

theorem reorganizeChain_check_failure:
  assumes tip: "Tip (bestChain b) = Some tip"
    and first: "detachNodes = [] \<or> hash (hd detachNodes) = hash tip"
    and forkpt: "detachNodes = [] \<or>
       (\<exists>ap dp. parent (hd (pre @ n # post)) = Some ap \<and> parent (last detachNodes) = Some dp
                \<and> hash ap = hash dp)"
    and detached: "detachCheckLoop X b detachNodes
       \<lparr>nextBlockToDetach = None, detachBlocks = [], detachSpentTxOuts = [],
        checkView = newView X (hash tip), detachBest = Some tip\<rparr> = Inr dc"
    and forkBlock: "fetchMainChainBlockByNode X b (detachBest dc) = Inr fb"
    and prefix: "attachCheckLoop X (Some fb) pre
       \<lparr>attachBlocks = [], attachView = checkView dc, attachBest = detachBest dc\<rparr> b = (None, ac, b1)"
    and blk: "fetchBlockByNode X b1 n = Inr blk"
    and par: "parent n = Some p"
    and pb: "parentBlk = (if attachBlocks ac = [] then fb else last (attachBlocks ac))"
    and hp: "hash p = blockHash parentBlk"
    and nv: "\<not> KnownValid (NodeStatus b1 n)"
    and fails: "checkConnectBlock X b1 n blk parentBlk (attachView ac) False = Inl (RuleError code)"
  shows "\<exists>b'. reorganizeChain X detachNodes (pre @ n # post) b = (Some (RuleError code), b')
       \<and> bestChain b' = bestChain b \<and> stateSnapshot b' = stateSnapshot b
       \<and> db b' = db b \<and> notifications b' = notifications b
       \<and> statusValidateFailed \<in> NodeStatus b' n
       \<and> (\<forall>d\<in>set post. statusInvalidAncestor \<in> NodeStatus b' d)"
proof -
  let ?attach = "pre @ n # post"
  let ?b' = "markInvalidAncestor post (SetStatusFlags n statusValidateFailed b1)"
  let ?init = "\<lparr>attachBlocks = [], attachView = checkView dc, attachBest = detachBest dc\<rparr>"
  have body: "attachCheckBody X (Some fb) n post ac b1 =
      (Some (RuleError code), ac\<lparr>attachBlocks := attachBlocks ac @ [blk]\<rparr>, ?b')"
    using blk par pb hp nv fails by (rule attachCheckBody_rule_error)
  have "attachCheckLoop X (Some fb) ?attach ?init b = attachCheckLoop X (Some fb) (n # post) ac b1"
    using prefix by (rule attachCheckLoop_prefix)
  also have "\<dots> = (Some (RuleError code), ac\<lparr>attachBlocks := attachBlocks ac @ [blk]\<rparr>, ?b')"
    using body by simp
  finally have loop: "attachCheckLoop X (Some fb) ?attach ?init b
      = (Some (RuleError code), ac\<lparr>attachBlocks := attachBlocks ac @ [blk]\<rparr>, ?b')" .
  have check: "reorgCheck X tip detachNodes ?attach b = Inl (RuleError code, ?b')"
    using detached forkBlock loop by (simp add: reorgCheck_def)
  have sane: "(if length ?attach \<noteq> 0 \<and> length detachNodes \<noteq> 0
             then (case (parent (hd ?attach), parent (last detachNodes)) of
                     (Some ap, Some dp) \<Rightarrow>
                       if hash ap \<noteq> hash dp
                       then Some (Panic ''reorganize nodes do not have the same fork point'')
                       else None
                   | _ \<Rightarrow> Some (Panic ''nil parent''))
             else None) = None"
    using forkpt by (cases "detachNodes = []") auto
  have res: "reorganizeChain X detachNodes ?attach b = (Some (RuleError code), ?b')"
    unfolding reorganizeChain_def using tip first check
    by (simp only: sane) (auto simp: hd_append)
  have "sameDurable b b1" using prefix by (rule attachCheckLoop_frame)
  then have frame: "bestChain ?b' = bestChain b" "stateSnapshot ?b' = stateSnapshot b"
    "db ?b' = db b" "notifications ?b' = notifications b"
    by (simp_all add: sameDurable_def)
  have vf: "statusValidateFailed \<in> NodeStatus ?b' n"
    by (simp add: NodeStatus_markInvalidAncestor NodeStatus_SetStatusFlags)
  have ia: "\<forall>d\<in>set post. statusInvalidAncestor \<in> NodeStatus ?b' d"
    by (simp add: NodeStatus_markInvalidAncestor)
  from res frame vf ia show ?thesis by blast
qed


text \<open>
  Scenario 4 of the spec, with one more block: the side chain B2a, B3a, B4a is to
  replace B2, B3, and the validator rejects B3a.
\<close>

definition rejectB3a :: "(string list, nat) collaborators" where
  "rejectB3a = collaboratorsOf [hash nodeB3a]"

definition sideChain :: "string list BlockChain" where
  "sideChain = chainOf [] [nodeG, nodeB1, nodeB2, nodeB3] [nodeB2a, nodeB3a, nodeB4a]"

lemmas side_nodes = scenario_nodes nodeB4a_def

lemma sideChain_simps:
  "bestChain sideChain = [nodeG, nodeB1, nodeB2, nodeB3]"
  "db sideChain = []"
  "notifications sideChain = []"
  "mainchainBlockCache sideChain = Map.empty"
  "orphans sideChain = []"
  "NodeStatus sideChain nodeB2a = {statusDataStored}"
  "NodeStatus sideChain nodeB3a = {statusDataStored}"
  by (simp_all add: sideChain_def chainOf_def NodeStatus_def dataOf_def side_nodes)

lemma rejectB3a_count: "countSpentOutputs rejectB3a (blockOf m) (blockOf k) = Inr 0"
  by (simp add: countSpentOutputs_def rejectB3a_def collaboratorsOf_def blockOf_def)

lemma sideChain_fetch_main:
  "fetchMainChainBlockByNode rejectB3a sideChain (Some nodeB3) = Inr (blockOf nodeB3)"
  "fetchMainChainBlockByNode rejectB3a sideChain (Some nodeB2) = Inr (blockOf nodeB2)"
  "fetchMainChainBlockByNode rejectB3a sideChain (Some nodeB1) = Inr (blockOf nodeB1)"
  by (simp_all add: fetchMainChainBlockByNode_def sideChain_simps Contains_def NodeByHeight_def
      side_nodes rejectB3a_def collaboratorsOf_def)

lemma sideChain_detached:
  "detachCheckLoop rejectB3a sideChain [nodeB3, nodeB2]
     \<lparr>nextBlockToDetach = None, detachBlocks = [], detachSpentTxOuts = [],
      checkView = newView rejectB3a (hash nodeB3), detachBest = Some nodeB3\<rparr>
   = Inr \<lparr>nextBlockToDetach = Some (blockOf nodeB1),
          detachBlocks = [blockOf nodeB3, blockOf nodeB2],
          detachSpentTxOuts = [[], []],
          checkView = 2, detachBest = Some nodeB1\<rparr>"
proof -
  have p: "parent nodeB3 = Some nodeB2" "parent nodeB2 = Some nodeB1"
    by (simp_all add: side_nodes)
  have h: "hash nodeB3 = blockHash (blockOf nodeB3)" "hash nodeB2 = blockHash (blockOf nodeB2)"
    by (simp_all add: blockOf_def)
  have j: "dbFetchSpendJournalEntry rejectB3a d blk pb = Inr []" for d blk pb
    by (simp add: rejectB3a_def collaboratorsOf_def)
  have dt: "disconnectTransactions rejectB3a c v blk pb st = Inr (v + 1)" for c v blk pb st
    by (simp add: rejectB3a_def collaboratorsOf_def)
  have nv: "newView rejectB3a x = 0" for x
    by (simp add: newView_def rejectB3a_def collaboratorsOf_def)
  show ?thesis
    by (simp add: sideChain_fetch_main p h [symmetric] j dt nv rejectB3a_count)
qed

lemma sideChain_fetch:
  "fetchBlockByNode rejectB3a (SetStatusFlags m f sideChain) k = Inr (blockOf k)"
  "fetchBlockByNode rejectB3a sideChain k = Inr (blockOf k)"
  by (simp_all add: fetchBlockByNode_def SetStatusFlags_def sideChain_simps rejectB3a_def
      collaboratorsOf_def)

lemma sideChain_prefix:
  "attachCheckLoop rejectB3a (Some (blockOf nodeB1)) [nodeB2a]
     \<lparr>attachBlocks = [], attachView = 2, attachBest = Some nodeB1\<rparr> sideChain
   = (None, \<lparr>attachBlocks = [blockOf nodeB2a], attachView = 3, attachBest = Some nodeB2a\<rparr>,
      SetStatusFlags nodeB2a statusValid sideChain)"
proof -
  have p: "parent nodeB2a = Some nodeB1" by (simp add: side_nodes)
  have h: "hash nodeB1 = blockHash (blockOf nodeB1)" by (simp add: blockOf_def)
  have c: "checkConnectBlock rejectB3a sideChain nodeB2a (blockOf nodeB2a) (blockOf nodeB1) 2 False
      = Inr (3, [])"
    by (simp add: rejectB3a_def collaboratorsOf_def blockOf_def side_nodes)
  show ?thesis
    by (simp add: attachCheckBody_def sideChain_fetch p h [symmetric] sideChain_simps
        KnownValid_def c)
qed

theorem reorganizeChain_check_failure_witness:
  "\<exists>b'. reorganizeChain rejectB3a [nodeB3, nodeB2] [nodeB2a, nodeB3a, nodeB4a] sideChain
           = (Some (RuleError (ErrOtherRule 1)), b')
        \<and> bestChain b' = [nodeG, nodeB1, nodeB2, nodeB3]
        \<and> stateSnapshot b' = stateSnapshot sideChain
        \<and> db b' = [] \<and> notifications b' = []
        \<and> statusValidateFailed \<in> NodeStatus b' nodeB3a
        \<and> statusInvalidAncestor \<in> NodeStatus b' nodeB4a"
proof -
  let ?b1 = "SetStatusFlags nodeB2a statusValid sideChain"
  have tip: "Tip (bestChain sideChain) = Some nodeB3"
    by (simp add: sideChain_simps Tip_def)
  have first: "[nodeB3, nodeB2] = [] \<or> hash (hd [nodeB3, nodeB2]) = hash nodeB3" by simp
  have forkpt: "[nodeB3, nodeB2] = [] \<or>
      (\<exists>ap dp. parent (hd ([nodeB2a] @ nodeB3a # [nodeB4a])) = Some ap
         \<and> parent (last [nodeB3, nodeB2]) = Some dp \<and> hash ap = hash dp)"
    by (simp add: side_nodes)
  have par: "parent nodeB3a = Some nodeB2a" by (simp add: side_nodes)
  have pb: "blockOf nodeB2a =
      (if attachBlocks \<lparr>attachBlocks = [blockOf nodeB2a], attachView = 3, attachBest = Some nodeB2a\<rparr> = []
       then blockOf nodeB1
       else last (attachBlocks \<lparr>attachBlocks = [blockOf nodeB2a], attachView = 3, attachBest = Some nodeB2a\<rparr>))"
    by simp
  have hp: "hash nodeB2a = blockHash (blockOf nodeB2a)" by (simp add: blockOf_def)
  have neq: "nodeB3a \<noteq> nodeB2a" by (simp add: side_nodes)
  have nv: "\<not> KnownValid (NodeStatus ?b1 nodeB3a)"
    by (simp add: NodeStatus_SetStatusFlags sideChain_simps KnownValid_def neq)
  have fails: "checkConnectBlock rejectB3a ?b1 nodeB3a (blockOf nodeB3a) (blockOf nodeB2a)
      (attachView \<lparr>attachBlocks = [blockOf nodeB2a], attachView = 3, attachBest = Some nodeB2a\<rparr>) False
      = Inl (RuleError (ErrOtherRule 1))"
    by (simp add: rejectB3a_def collaboratorsOf_def blockOf_def)
  have d: "detachCheckLoop rejectB3a sideChain [nodeB3, nodeB2]
     \<lparr>nextBlockToDetach = None, detachBlocks = [], detachSpentTxOuts = [],
      checkView = newView rejectB3a (hash nodeB3), detachBest = Some nodeB3\<rparr>
   = Inr \<lparr>nextBlockToDetach = Some (blockOf nodeB1),
          detachBlocks = [blockOf nodeB3, blockOf nodeB2],
          detachSpentTxOuts = [[], []],
          checkView = 2, detachBest = Some nodeB1\<rparr>"
    by (rule sideChain_detached)
  from reorganizeChain_check_failure [where post = "[nodeB4a]", OF tip first forkpt d _ _ sideChain_fetch(1) par pb hp nv fails]
    sideChain_fetch_main(3) sideChain_prefix
  show ?thesis by (simp add: sideChain_simps)
qed

end
